theory Spec2Isabelle
  imports Complex_Main "HOL-Library.Log_Nat"
begin

section \<open>The daily art challenge: a model of \<^verbatim>\<open>ArtGuessingGame.jsx\<close>\<close>

text \<open>
  The component keeps its data in React state cells and talks to the outside world through
  \<^verbatim>\<open>fetch\<close>, the console, the clock and two canvases. The model makes each of these
  explicit: the state cells are the fields of a record, the network is a log of the requests
  issued together with the responses handed to the continuation of each \<^verbatim>\<open>await\<close>,
  the console is a log, an exception is a value, and the clock is an argument.

  JavaScript numbers are doubles. Where the code only counts (identifiers, the resolution,
  character codes, pixel coordinates) they are integers far below \<open>2 ^ 53\<close>, which doubles
  hold exactly, and the model uses \<open>int\<close> and \<open>nat\<close>. Where it divides or multiplies by a
  fraction (the aspect ratio, the radius of a dot) the model uses \<open>rat\<close> and rounds every
  result to the nearest double, as the machine does.
\<close>

subsection \<open>The daily seed (lines 21-27)\<close>

text \<open>
  \<^verbatim>\<open>new Date()\<close> read in local time: the calendar fields and the time of day.
  \<open>month\<close> is the calendar month 1..12 (what the token \<^verbatim>\<open>MM\<close> prints).
\<close>

record jsdate =
  year :: int
  month :: nat
  day :: nat
  hours :: nat
  minutes :: nat
  seconds :: nat

text \<open>Decimal digits of a number, most significant first (\<^verbatim>\<open>Number.prototype.toString\<close>).\<close>

fun toString :: "nat \<Rightarrow> string" where
  "toString n =
     (if n < 10 then [char_of (48 + n)]
      else toString (n div 10) @ [char_of (48 + n mod 10)])"

declare toString.simps [simp del]

text \<open>
  \<^verbatim>\<open>addLeadingZeros\<close> of the date library: the digits, padded on the left with
  \<^verbatim>\<open>0\<close> up to the target length (\<^verbatim>\<open>padStart\<close> never truncates).
\<close>

definition addLeadingZeros :: "nat \<Rightarrow> nat \<Rightarrow> string" where
  "addLeadingZeros n targetLength =
     replicate (targetLength - length (toString n)) (CHR ''0'') @ toString n"

text \<open>
  \<^verbatim>\<open>format(date, 'yyyyMMdd')\<close>. The token \<^verbatim>\<open>yyyy\<close> prints the year of the era
  (for a year \<open>\<le> 0\<close> that is \<open>1 - year\<close>) on at least four digits, \<^verbatim>\<open>MM\<close> the month and
  \<^verbatim>\<open>dd\<close> the day of the month on at least two.
\<close>

definition format_yyyyMMdd :: "jsdate \<Rightarrow> string" where
  "format_yyyyMMdd d =
     addLeadingZeros (nat (if year d > 0 then year d else 1 - year d)) 4
     @ addLeadingZeros (month d) 2
     @ addLeadingZeros (day d) 2"

text \<open>\<^verbatim>\<open>char.charCodeAt(0)\<close>.\<close>

definition charCodeAt0 :: "char \<Rightarrow> int" where
  "charCodeAt0 c = of_char c"

text \<open>
  \<^verbatim>\<open>Array.from(today).reduce((acc, char) => acc + char.charCodeAt(0), 0)\<close> is a left fold
  from 0; the result is \<^verbatim>\<open>(seed % 500000) + 1\<close>. The seed is never negative, so the
  remainder of JavaScript and \<open>mod\<close> agree.
\<close>

definition getDailyArtworkId :: "jsdate \<Rightarrow> int" where
  "getDailyArtworkId now =
     (let today = format_yyyyMMdd now;
          seed = foldl (\<lambda>acc char. acc + charCodeAt0 char) 0 today
      in (seed mod 500000) + 1)"

subsection \<open>The collection API\<close>

text \<open>
  What the continuation of \<^verbatim>\<open>await fetch(...)\<close> and \<^verbatim>\<open>await response.json()\<close>
  receives: either one of the two promises rejects (the network fails, the body is not JSON),
  or the body parses to \<^verbatim>\<open>null\<close>, or it parses to a record. A body that is a number or
  a string behaves like a record with no field.
\<close>

datatype error = FetchFailed | JsonSyntaxError | TypeError | IndexSizeError

datatype 'a response = Rejects error | JsonNull | Json 'a

text \<open>
  The object endpoint's record, with the types the API documents. \<open>None\<close> is a field that
  is absent or \<^verbatim>\<open>null\<close>.
\<close>

record met_object =
  objectID :: "int option"
  title :: "string option"
  artistDisplayName :: "string option"
  objectDate :: "string option"
  primaryImage :: "string option"
  department :: "string option"
  isPublicDomain :: "bool option"

text \<open>The search endpoint's record: \<^verbatim>\<open>objectIDs\<close> is an array of identifiers or \<^verbatim>\<open>null\<close>.\<close>

record search_data =
  objectIDs :: "int list option"

text \<open>JavaScript truthiness of a string field and of a boolean field.\<close>

definition truthy_string :: "string option \<Rightarrow> bool" where
  "truthy_string v = (case v of None \<Rightarrow> False | Some s \<Rightarrow> s \<noteq> [])"

definition truthy_bool :: "bool option \<Rightarrow> bool" where
  "truthy_bool v = (case v of None \<Rightarrow> False | Some b \<Rightarrow> b)"

datatype request = ObjectRequest int | SearchRequest string

subsection \<open>The component's state (lines 11-19)\<close>

record artwork =
  art_id :: "int option"
  art_title :: "string option"
  art_artist :: "string option"
  art_year :: "string option"
  art_image :: "string option"
  art_department :: "string option"

record search_result =
  res_id :: "int option"
  res_title :: "string option"
  res_artist :: "string option"
  res_year :: "string option"

text \<open>
  The seven state cells, then the effects: the requests issued so far, the identifiers of the
  daily requests still in flight, the console, and the calls of \<^verbatim>\<open>processImage\<close>
  (the image URL and the resolution of the render that made the call).
  \<open>popoverOpen\<close> is the cell \<^verbatim>\<open>open\<close>.
\<close>

record state =
  artwork :: "artwork option"
  dotsWide :: int
  isLoading :: bool
  popoverOpen :: bool
  searchValue :: string
  gameState :: string
  searchResults :: "search_result list"
  requests :: "request list"
  pendingDaily :: "int list"
  console :: "(string \<times> error) list"
  processImageCalls :: "(string option \<times> int) list"

definition initialState :: state where
  "initialState =
     \<lparr>artwork = None, dotsWide = 10, isLoading = True, popoverOpen = False,
      searchValue = [], gameState = ''playing'', searchResults = [],
      requests = [], pendingDaily = [], console = [], processImageCalls = []\<rparr>"

subsection \<open>fetchDailyArtwork (lines 29-58)\<close>

text \<open>The test of line 38.\<close>

definition eligible :: "met_object \<Rightarrow> bool" where
  "eligible data \<longleftrightarrow>
     truthy_string (primaryImage data) \<and> truthy_string (title data) \<and>
     truthy_string (artistDisplayName data) \<and> truthy_bool (isPublicDomain data)"

definition toArtwork :: "met_object \<Rightarrow> artwork" where
  "toArtwork data =
     \<lparr>art_id = objectID data, art_title = title data, art_artist = artistDisplayName data,
      art_year = objectDate data, art_image = primaryImage data,
      art_department = department data\<rparr>"

text \<open>
  The function up to its first \<^verbatim>\<open>await\<close>: \<^verbatim>\<open>setIsLoading(true)\<close>, the identifier of
  the day, the request.
\<close>

definition fetchDailyArtwork :: "jsdate \<Rightarrow> state \<Rightarrow> state" where
  "fetchDailyArtwork now s =
     (let objectId = getDailyArtworkId now
      in s\<lparr>isLoading := True,
            requests := requests s @ [ObjectRequest objectId],
            pendingDaily := pendingDaily s @ [objectId]\<rparr>)"

text \<open>
  The rest of the \<^verbatim>\<open>try\<close> block, once the response is there: \<open>Inl\<close> is the exception that
  leaves the block. Reading a field of \<^verbatim>\<open>null\<close> throws. The recursive call of line 51 is
  not awaited: it runs up to its own first \<^verbatim>\<open>await\<close> and returns.
\<close>

definition fetchDailyArtwork_try :: "jsdate \<Rightarrow> met_object response \<Rightarrow> state \<Rightarrow> error + state" where
  "fetchDailyArtwork_try now r s =
     (case r of
        Rejects e \<Rightarrow> Inl e
      | JsonNull \<Rightarrow> Inl TypeError
      | Json data \<Rightarrow>
          if eligible data then Inr (s\<lparr>artwork := Some (toArtwork data)\<rparr>)
          else Inr (fetchDailyArtwork now (s\<lparr>artwork := None\<rparr>)))"

text \<open>
  The continuation of the oldest daily request in flight: the \<^verbatim>\<open>try\<close> block, the
  \<^verbatim>\<open>catch\<close> that logs, the \<^verbatim>\<open>finally\<close> that clears the loading flag.
\<close>

definition fetchDailyArtwork_resume :: "jsdate \<Rightarrow> met_object response \<Rightarrow> state \<Rightarrow> state" where
  "fetchDailyArtwork_resume now r s =
     (let s0 = s\<lparr>pendingDaily := tl (pendingDaily s)\<rparr>;
          s1 = (case fetchDailyArtwork_try now r s0 of
                  Inl e \<Rightarrow> s0\<lparr>console := console s0 @ [(''Error fetching artwork:'', e)]\<rparr>
                | Inr s' \<Rightarrow> s')
      in s1\<lparr>isLoading := False\<rparr>)"

text \<open>
  The whole chain of requests that one call starts: as long as a daily request is in flight,
  its response arrives and the continuation runs. \<open>clock k\<close> is the time at which the
  \<open>k\<close>-th response arrives and \<open>api k\<close> what the server answers then. The result is \<open>None\<close>
  when the chain never ends.
\<close>

partial_function (option) fetchDailyArtwork_settle ::
  "(nat \<Rightarrow> jsdate) \<Rightarrow> (nat \<Rightarrow> int \<Rightarrow> met_object response) \<Rightarrow> nat \<Rightarrow> state \<Rightarrow> state option" where
  "fetchDailyArtwork_settle clock api k s =
     (case pendingDaily s of
        [] \<Rightarrow> Some s
      | objectId # _ \<Rightarrow>
          fetchDailyArtwork_settle clock api (Suc k)
            (fetchDailyArtwork_resume (clock k) (api k objectId) s))"

subsection \<open>searchArtworks (lines 60-97)\<close>

definition formatResult :: "met_object \<Rightarrow> search_result" where
  "formatResult item =
     \<lparr>res_id = objectID item, res_title = title item, res_artist = artistDisplayName item,
      res_year = objectDate item\<rparr>"

text \<open>
  \<^verbatim>\<open>Promise.all\<close> over the detail requests: it rejects as soon as one of them does
  (the model takes the first in list order); a body \<^verbatim>\<open>null\<close> is an item \<open>None\<close>.
\<close>

fun promiseAll :: "'a response list \<Rightarrow> error + 'a option list" where
  "promiseAll [] = Inr []"
| "promiseAll (Rejects e # rs) = Inl e"
| "promiseAll (JsonNull # rs) =
     (case promiseAll rs of Inl e \<Rightarrow> Inl e | Inr xs \<Rightarrow> Inr (None # xs))"
| "promiseAll (Json x # rs) =
     (case promiseAll rs of Inl e \<Rightarrow> Inl e | Inr xs \<Rightarrow> Inr (Some x # xs))"

text \<open>The callback of line 84.\<close>

definition keepItem :: "met_object \<Rightarrow> bool" where
  "keepItem item \<longleftrightarrow> truthy_string (primaryImage item) \<and> truthy_bool (isPublicDomain item)"

text \<open>\<^verbatim>\<open>details.filter(...)\<close>: the callback throws on an item \<^verbatim>\<open>null\<close>.\<close>

fun filterItems :: "met_object option list \<Rightarrow> error + met_object list" where
  "filterItems [] = Inr []"
| "filterItems (None # xs) = Inl TypeError"
| "filterItems (Some item # xs) =
     (case filterItems xs of
        Inl e \<Rightarrow> Inl e
      | Inr ys \<Rightarrow> Inr (if keepItem item then item # ys else ys))"

text \<open>\<^verbatim>\<open>data.objectIDs?.slice(0, 5) || []\<close>.\<close>

definition limitedIds :: "search_data \<Rightarrow> int list" where
  "limitedIds data = (case objectIDs data of None \<Rightarrow> [] | Some ids \<Rightarrow> take 5 ids)"

text \<open>
  The \<^verbatim>\<open>try\<close> block. \<open>Inl (e, s')\<close> is the exception \<open>e\<close>, raised in the state \<open>s'\<close>
  (the requests issued before it stay issued).
\<close>

definition searchArtworks_try ::
  "string \<Rightarrow> (string \<Rightarrow> search_data response) \<Rightarrow> (int \<Rightarrow> met_object response) \<Rightarrow> state
     \<Rightarrow> (error \<times> state) + state" where
  "searchArtworks_try query searchApi objectApi s =
     (let s1 = s\<lparr>requests := requests s @ [SearchRequest query]\<rparr>
      in case searchApi query of
           Rejects e \<Rightarrow> Inl (e, s1)
         | JsonNull \<Rightarrow> Inl (TypeError, s1)
         | Json data \<Rightarrow>
             (let ids = limitedIds data;
                  s2 = s1\<lparr>requests := requests s1 @ map ObjectRequest ids\<rparr>
              in case promiseAll (map objectApi ids) of
                   Inl e \<Rightarrow> Inl (e, s2)
                 | Inr details \<Rightarrow>
                     (case filterItems details of
                        Inl e \<Rightarrow> Inl (e, s2)
                      | Inr kept \<Rightarrow> Inr (s2\<lparr>searchResults := map formatResult kept\<rparr>))))"

definition searchArtworks ::
  "string \<Rightarrow> (string \<Rightarrow> search_data response) \<Rightarrow> (int \<Rightarrow> met_object response) \<Rightarrow> state
     \<Rightarrow> state" where
  "searchArtworks query searchApi objectApi s =
     (if query = [] then s\<lparr>searchResults := []\<rparr>
      else case searchArtworks_try query searchApi objectApi s of
             Inl (e, s') \<Rightarrow>
               s'\<lparr>console := console s' @ [(''Error searching artworks:'', e)],
                  searchResults := []\<rparr>
           | Inr s' \<Rightarrow> s')"

subsection \<open>The handlers and the effects (lines 99-101, 145-184)\<close>

text \<open>
  A call of \<^verbatim>\<open>processImage\<close>: it starts loading the image; the drawing happens in
  \<^verbatim>\<open>onload\<close> (modelled below). \<open>dots\<close> is the value of \<^verbatim>\<open>dotsWide\<close> in the closure
  that makes the call.
\<close>

definition processImage :: "int \<Rightarrow> string option \<Rightarrow> state \<Rightarrow> state" where
  "processImage dots imageUrl s =
     s\<lparr>processImageCalls := processImageCalls s @ [(imageUrl, dots)]\<rparr>"

text \<open>
  A handler returns the exception it raised, if any, and the state with the updates it had
  queued before. \<^verbatim>\<open>artwork.id\<close> and \<^verbatim>\<open>artwork.image\<close> throw when \<^verbatim>\<open>artwork\<close> is
  \<^verbatim>\<open>null\<close>. \<^verbatim>\<open>setDotsWide(prev => prev + 10)\<close> takes effect at the next render:
  the call of \<^verbatim>\<open>processImage\<close> in the handler still sees the old resolution.
\<close>

definition handleGuess :: "search_result \<Rightarrow> state \<Rightarrow> error option \<times> state" where
  "handleGuess selectedArtwork s =
     (case artwork s of
        None \<Rightarrow> (Some TypeError, s)
      | Some a \<Rightarrow>
          (let s1 = (if res_id selectedArtwork = art_id a then s\<lparr>gameState := ''won''\<rparr>
                     else processImage (dotsWide s) (art_image a)
                            (s\<lparr>dotsWide := dotsWide s + 10\<rparr>))
           in (None, s1\<lparr>popoverOpen := False, searchValue := [], searchResults := []\<rparr>)))"

definition handleSkip :: "state \<Rightarrow> error option \<times> state" where
  "handleSkip s =
     (let s1 = s\<lparr>dotsWide := dotsWide s + 10\<rparr>
      in case artwork s of
           None \<Rightarrow> (Some TypeError, s1)
         | Some a \<Rightarrow> (None, processImage (dotsWide s) (art_image a) s1))"

text \<open>
  The effect of lines 171-175, run after a render in which \<^verbatim>\<open>artwork\<close> or
  \<^verbatim>\<open>dotsWide\<close> changed.
\<close>

definition renderEffect :: "state \<Rightarrow> state \<Rightarrow> state" where
  "renderEffect prev s =
     (if artwork s \<noteq> artwork prev \<or> dotsWide s \<noteq> dotsWide prev then
        (case artwork s of
           None \<Rightarrow> s
         | Some a \<Rightarrow> if truthy_string (art_image a) then processImage (dotsWide s) (art_image a) s
                     else s)
      else s)"

subsection \<open>The session\<close>

text \<open>
  What can happen after the component is mounted: the response of a daily request arrives;
  the user types in the search box, opens or closes the popover, picks a search result or
  skips; a search started by the debounce timer completes (with any query typed before, as
  nothing cancels a search in flight).
\<close>

datatype event =
    DailyResponse jsdate "met_object response"
  | SetSearchValue string
  | SetOpen bool
  | Search string "string \<Rightarrow> search_data response" "int \<Rightarrow> met_object response"
  | Guess search_result
  | Skip

definition handle :: "event \<Rightarrow> state \<Rightarrow> state" where
  "handle e s =
     (case e of
        DailyResponse now r \<Rightarrow> fetchDailyArtwork_resume now r s
      | SetSearchValue v \<Rightarrow> s\<lparr>searchValue := v\<rparr>
      | SetOpen b \<Rightarrow> s\<lparr>popoverOpen := b\<rparr>
      | Search query searchApi objectApi \<Rightarrow> searchArtworks query searchApi objectApi s
      | Guess selectedArtwork \<Rightarrow> snd (handleGuess selectedArtwork s)
      | Skip \<Rightarrow> snd (handleSkip s))"

definition step :: "event \<Rightarrow> state \<Rightarrow> state" where
  "step e s = renderEffect s (handle e s)"

text \<open>
  The controls exist only when the loading card is gone and the game is being played
  (lines 186 and 212); only a listed result can be picked (line 235).
\<close>

definition enabled :: "event \<Rightarrow> state \<Rightarrow> bool" where
  "enabled e s =
     (case e of
        DailyResponse now r \<Rightarrow> pendingDaily s \<noteq> []
      | Search query searchApi objectApi \<Rightarrow> True
      | Guess selectedArtwork \<Rightarrow>
          \<not> isLoading s \<and> gameState s = ''playing'' \<and> selectedArtwork \<in> set (searchResults s)
      | _ \<Rightarrow> \<not> isLoading s \<and> gameState s = ''playing'')"

inductive reachable :: "state \<Rightarrow> bool" where
  mounted: "reachable (fetchDailyArtwork now initialState)"
| stepped: "reachable s \<Longrightarrow> enabled e s \<Longrightarrow> reachable (step e s)"

text \<open>A session: the events in the order they happen.\<close>

fun session :: "event list \<Rightarrow> state \<Rightarrow> state" where
  "session [] s = s"
| "session (e # es) s = session es (step e s)"

text \<open>
  A concrete session to evaluate the model on: a date, three records of the object endpoint
  (the artwork of the day, another eligible one, one with no image), the search result made
  from the second, the two endpoints, the state once the artwork of the day has arrived and
  the state once a search has listed its results.
\<close>

definition sampleDate :: jsdate where
  "sampleDate = \<lparr>year = 2026, month = 11, day = 3, hours = 8, minutes = 30, seconds = 15\<rparr>"

definition sampleObject :: met_object where
  "sampleObject =
     \<lparr>objectID = Some 400, title = Some ''Vase'', artistDisplayName = Some ''Unknown'',
      objectDate = Some ''1800'', primaryImage = Some ''https://images.example/400.jpg'',
      department = Some ''Asian Art'', isPublicDomain = Some True\<rparr>"

definition sampleBowl :: met_object where
  "sampleBowl =
     \<lparr>objectID = Some 7, title = Some ''Bowl'', artistDisplayName = Some ''Unknown'',
      objectDate = Some ''1700'', primaryImage = Some ''https://images.example/7.jpg'',
      department = Some ''Asian Art'', isPublicDomain = Some True\<rparr>"

definition sampleNoImage :: met_object where
  "sampleNoImage = sampleBowl\<lparr>objectID := Some 8, primaryImage := Some []\<rparr>"

definition sampleOther :: search_result where
  "sampleOther = formatResult sampleBowl"

definition sampleSearchApi :: "string \<Rightarrow> search_data response" where
  "sampleSearchApi query = Json \<lparr>objectIDs = Some [7, 8, 400, 9, 10, 11, 12]\<rparr>"

definition sampleObjectApi :: "int \<Rightarrow> met_object response" where
  "sampleObjectApi i =
     (if i = 400 then Json sampleObject
      else if i = 7 then Json sampleBowl
      else if i = 9 then Json (sampleBowl\<lparr>objectID := Some 9, isPublicDomain := Some False\<rparr>)
      else Json sampleNoImage)"

definition playingState :: state where
  "playingState =
     step (DailyResponse sampleDate (Json sampleObject)) (fetchDailyArtwork sampleDate initialState)"

definition guessState :: state where
  "guessState = step (Search ''bowl'' sampleSearchApi sampleObjectApi) playingState"

text \<open>
  The state in which the record of the day was ineligible, the next request is in flight, and
  a search has listed its results.
\<close>

definition retryingState :: state where
  "retryingState =
     step (Search ''bowl'' sampleSearchApi sampleObjectApi)
       (step (DailyResponse sampleDate (Json sampleNoImage))
          (fetchDailyArtwork sampleDate initialState))"

subsection \<open>processImage, the \<^verbatim>\<open>onload\<close> callback (lines 102-144)\<close>

text \<open>
  A loaded image: its natural size and what \<^verbatim>\<open>drawImage(img, 0, 0, w, h)\<close> leaves on a
  canvas of \<open>w\<close> by \<open>h\<close> pixels (the browser's resampling, a parameter of the model): the
  red, green, blue and alpha samples of the pixel in column \<open>x\<close> of row \<open>y\<close>.
\<close>

type_synonym rgba = "nat \<times> nat \<times> nat \<times> nat"

record htmlImage =
  img_width :: nat
  img_height :: nat
  img_drawn :: "nat \<Rightarrow> nat \<Rightarrow> nat \<Rightarrow> nat \<Rightarrow> rgba"

text \<open>
  Double precision arithmetic. A double other than 0 is \<open>m * 2 ^ (e - 52)\<close> with an integer
  \<open>m\<close> of 53 bits; \<open>e\<close> is the exponent. The result of a division or a multiplication is
  the exact result rounded to the nearest such number, a tie going to the even \<open>m\<close>.
  (The exponent is not bounded here: no number in this program comes near the largest or the
  smallest double.)
\<close>

definition pow2 :: "int \<Rightarrow> rat" where
  "pow2 e = (if 0 \<le> e then 2 ^ nat e else 1 / 2 ^ nat (- e))"

text \<open>The exponent of a positive number \<open>q\<close>: the \<open>e\<close> with \<open>2 ^ e \<le> q < 2 ^ (e + 1)\<close>.\<close>

definition exponentOf :: "rat \<Rightarrow> int" where
  "exponentOf q = (if 1 \<le> q then bitlen \<lfloor>q\<rfloor> - 1 else - bitlen (\<lceil>1 / q\<rceil> - 1))"

definition roundHalfEven :: "rat \<Rightarrow> int" where
  "roundHalfEven v =
     (let f = \<lfloor>v\<rfloor>; r = v - of_int f
      in if r < 1 / 2 then f else if 1 / 2 < r then f + 1 else if even f then f else f + 1)"

definition toDouble :: "rat \<Rightarrow> rat" where
  "toDouble q =
     (if q = 0 then 0
      else (let ulp = pow2 (exponentOf \<bar>q\<bar> - 52)
            in of_int (roundHalfEven (q / ulp)) * ulp))"

text \<open>The operators \<^verbatim>\<open>/\<close> and \<^verbatim>\<open>*\<close> on doubles (the divisor is not 0).\<close>

definition js_div :: "rat \<Rightarrow> rat \<Rightarrow> rat" where
  "js_div a b = toDouble (a / b)"

definition js_mul :: "rat \<Rightarrow> rat \<Rightarrow> rat" where
  "js_mul a b = toDouble (a * b)"

text \<open>\<^verbatim>\<open>Math.round\<close>: the nearest integer, a tie going up.\<close>

definition js_round :: "rat \<Rightarrow> int" where
  "js_round v = \<lfloor>v + 1 / 2\<rfloor>"

text \<open>
  \<^verbatim>\<open>getImageData(0, 0, w, h).data\<close>: the samples of the canvas, row by row, four per
  pixel.
\<close>

definition getImageData :: "(nat \<Rightarrow> nat \<Rightarrow> rgba) \<Rightarrow> nat \<Rightarrow> nat \<Rightarrow> nat list" where
  "getImageData bitmap w h =
     concat (map (\<lambda>y. concat (map (\<lambda>x. case bitmap x y of (r, g, b, a) \<Rightarrow> [r, g, b, a])
                                  [0..<w]))
                 [0..<h])"

text \<open>Reading a typed array: \<^verbatim>\<open>undefined\<close> (here \<open>None\<close>) outside its range.\<close>

definition pixelAt :: "nat list \<Rightarrow> nat \<Rightarrow> nat option" where
  "pixelAt pixels i = (if i < length pixels then Some (pixels ! i) else None)"

record dot =
  dot_red :: "nat option"
  dot_green :: "nat option"
  dot_blue :: "nat option"
  dot_x :: rat
  dot_y :: rat
  dot_radius :: rat

text \<open>
  The body of the inner loop (lines 131-141): one \<^verbatim>\<open>arc\<close>, filled. The centre is
  computed on integers; the radius is \<^verbatim>\<open>scale/2 * 0.8\<close>, where the literal
  \<^verbatim>\<open>0.8\<close> is the double nearest to \<open>8 / 10\<close>.
\<close>

definition drawDot :: "nat list \<Rightarrow> nat \<Rightarrow> rat \<Rightarrow> nat \<Rightarrow> nat \<Rightarrow> dot" where
  "drawDot pixels width scale x y =
     (let i = (y * width + x) * 4
      in \<lparr>dot_red = pixelAt pixels i, dot_green = pixelAt pixels (i + 1),
          dot_blue = pixelAt pixels (i + 2),
          dot_x = of_nat x * scale + scale / 2,
          dot_y = of_nat y * scale + scale / 2,
          dot_radius = js_mul (js_div scale 2) (toDouble (8 / 10))\<rparr>)"

text \<open>The two loops; \<open>drawn\<close> collects the dots in the order they are painted.\<close>

function loopX :: "nat list \<Rightarrow> nat \<Rightarrow> rat \<Rightarrow> nat \<Rightarrow> nat \<Rightarrow> dot list \<Rightarrow> dot list" where
  "loopX pixels width scale y x drawn =
     (if x < width then loopX pixels width scale y (x + 1)
                          (drawn @ [drawDot pixels width scale x y])
      else drawn)"
  by pat_completeness auto
termination
  by (relation "measure (\<lambda>(pixels, width, scale, y, x, drawn). width - x)") auto

function loopY :: "nat list \<Rightarrow> nat \<Rightarrow> nat \<Rightarrow> rat \<Rightarrow> nat \<Rightarrow> dot list \<Rightarrow> dot list" where
  "loopY pixels width height scale y drawn =
     (if y < height then loopY pixels width height scale (y + 1)
                           (loopX pixels width scale y 0 drawn)
      else drawn)"
  by pat_completeness auto
termination
  by (relation "measure (\<lambda>(pixels, width, height, scale, y, drawn). height - y)") auto

declare loopX.simps [simp del] loopY.simps [simp del]

text \<open>
  The two canvases after the callback: the size of the hidden canvas, the size of the
  visible one (cleared to white), the dots painted on it.
\<close>

record canvases =
  canvas_width :: nat
  canvas_height :: nat
  output_width :: nat
  output_height :: nat
  output_dots :: "dot list"

text \<open>
  The callback, for the resolution \<open>dots\<close> of the closure. The aspect ratio
  \<^verbatim>\<open>img.height / img.width\<close> and the product \<^verbatim>\<open>dotsWide * aspectRatio\<close> are
  computed on doubles. A division by zero gives an infinity or a NaN in JavaScript, which a
  canvas dimension turns into 0. \<^verbatim>\<open>getImageData\<close> throws on an empty rectangle, after
  the canvases are sized and no dot is painted. The limit a browser puts on the size of a
  canvas is not modelled.
\<close>

definition processImage_onload :: "htmlImage \<Rightarrow> int \<Rightarrow> error option \<times> canvases" where
  "processImage_onload img dots =
     (let height = (if img_width img = 0 then 0
                    else (let aspectRatio = js_div (of_nat (img_height img))
                                                   (of_nat (img_width img))
                          in nat (js_round (js_mul (of_int dots) aspectRatio))));
          width = nat dots;
          scale = 20;
          sized = \<lparr>canvas_width = width, canvas_height = height,
                   output_width = width * scale, output_height = height * scale,
                   output_dots = []\<rparr>
      in if width = 0 \<or> height = 0 then (Some IndexSizeError, sized)
         else (let pixels = getImageData (img_drawn img width height) width height
               in (None, sized\<lparr>output_dots := loopY pixels width height (of_nat scale) 0 []\<rparr>)))"

text \<open>
  A concrete image for the evaluation of the callback: 20 by 41 pixels. At the resolution 30
  the exact product \<open>30 * 41 / 20\<close> is \<open>61.5\<close>, but the doubles give
  \<open>61.49999999999999\<close>: the grid has 61 rows, not 62.
\<close>

definition sampleImage :: htmlImage where
  "sampleImage =
     \<lparr>img_width = 20, img_height = 41,
      img_drawn = (\<lambda>w h x y. (x mod 256, y mod 256, 0, 255))\<rparr>"

section \<open>Properties\<close>

subsection \<open>The daily seed\<close>

lemma foldl_add_sum_list:
  "foldl (\<lambda>acc c. acc + f c) a xs = (a::int) + sum_list (map f xs)"
  by (induction xs arbitrary: a) simp_all

lemma getDailyArtworkId_sum:
  "getDailyArtworkId d = sum_list (map charCodeAt0 (format_yyyyMMdd d)) mod 500000 + 1"
  by (simp add: getDailyArtworkId_def foldl_add_sum_list)

lemma format_same_day:
  "year d' = year d \<Longrightarrow> month d' = month d \<Longrightarrow> day d' = day d \<Longrightarrow>
   format_yyyyMMdd d' = format_yyyyMMdd d"
  by (simp add: format_yyyyMMdd_def)

lemma getDailyArtworkId_lower: "1 \<le> getDailyArtworkId d"
  unfolding getDailyArtworkId_sum by simp

lemma getDailyArtworkId_upper: "getDailyArtworkId d \<le> 500000"
  unfolding getDailyArtworkId_sum by simp

lemma getDailyArtworkId_same_day:
  "year d' = year d \<and> month d' = month d \<and> day d' = day d
     \<longrightarrow> getDailyArtworkId d' = getDailyArtworkId d"
  by (auto simp only: getDailyArtworkId_def dest: format_same_day)

text \<open>
  C1. For every date, the identifier is the sum of the character codes of the date printed as
  \<^verbatim>\<open>yyyyMMdd\<close>, modulo 500000, plus 1. It lies between 1 and 500000, and two calls at
  different times of the same calendar day return the same identifier.
\<close>

theorem getDailyArtworkId_daily_seed:
  "getDailyArtworkId d = sum_list (map charCodeAt0 (format_yyyyMMdd d)) mod 500000 + 1
   \<and> 1 \<le> getDailyArtworkId d \<and> getDailyArtworkId d \<le> 500000
   \<and> (year d' = year d \<and> month d' = month d \<and> day d' = day d
        \<longrightarrow> getDailyArtworkId d' = getDailyArtworkId d)"
  by (intro conjI getDailyArtworkId_sum getDailyArtworkId_lower getDailyArtworkId_upper
        getDailyArtworkId_same_day)

theorem getDailyArtworkId_daily_seed_witness:
  "getDailyArtworkId \<lparr>year = 2026, month = 11, day = 3, hours = 23, minutes = 59, seconds = 0\<rparr>
     = getDailyArtworkId \<lparr>year = 2026, month = 11, day = 3, hours = 8, minutes = 30, seconds = 15\<rparr>
   \<and> getDailyArtworkId \<lparr>year = 2026, month = 11, day = 3, hours = 8, minutes = 30, seconds = 15\<rparr> = 400"
proof -
  have "getDailyArtworkId \<lparr>year = 2026, month = 11, day = 3, hours = 8, minutes = 30, seconds = 15\<rparr> = 400"
    by code_simp
  then show ?thesis
    using getDailyArtworkId_daily_seed
      [of "\<lparr>year = 2026, month = 11, day = 3, hours = 8, minutes = 30, seconds = 15\<rparr>"
          "\<lparr>year = 2026, month = 11, day = 3, hours = 23, minutes = 59, seconds = 0\<rparr>"]
    by simp
qed

subsection \<open>What each operation leaves alone\<close>

lemma processImage_keeps [simp]:
  "artwork (processImage d u s) = artwork s"
  "dotsWide (processImage d u s) = dotsWide s"
  "gameState (processImage d u s) = gameState s"
  "isLoading (processImage d u s) = isLoading s"
  "searchResults (processImage d u s) = searchResults s"
  "pendingDaily (processImage d u s) = pendingDaily s"
  "requests (processImage d u s) = requests s"
  "console (processImage d u s) = console s"
  by (simp_all add: processImage_def)

lemma renderEffect_keeps [simp]:
  "artwork (renderEffect prev s) = artwork s"
  "dotsWide (renderEffect prev s) = dotsWide s"
  "gameState (renderEffect prev s) = gameState s"
  "isLoading (renderEffect prev s) = isLoading s"
  "searchResults (renderEffect prev s) = searchResults s"
  "pendingDaily (renderEffect prev s) = pendingDaily s"
  "requests (renderEffect prev s) = requests s"
  "console (renderEffect prev s) = console s"
  by (simp_all add: renderEffect_def split: option.split)

lemma fetchDailyArtwork_keeps [simp]:
  "artwork (fetchDailyArtwork now s) = artwork s"
  "dotsWide (fetchDailyArtwork now s) = dotsWide s"
  "gameState (fetchDailyArtwork now s) = gameState s"
  "searchResults (fetchDailyArtwork now s) = searchResults s"
  "console (fetchDailyArtwork now s) = console s"
  "isLoading (fetchDailyArtwork now s) = True"
  "requests (fetchDailyArtwork now s) = requests s @ [ObjectRequest (getDailyArtworkId now)]"
  "pendingDaily (fetchDailyArtwork now s) = pendingDaily s @ [getDailyArtworkId now]"
  by (simp_all add: fetchDailyArtwork_def Let_def)

lemma fetchDailyArtwork_resume_keeps [simp]:
  "dotsWide (fetchDailyArtwork_resume now r s) = dotsWide s"
  "gameState (fetchDailyArtwork_resume now r s) = gameState s"
  "searchResults (fetchDailyArtwork_resume now r s) = searchResults s"
  "isLoading (fetchDailyArtwork_resume now r s) = False"
  by (simp_all add: fetchDailyArtwork_resume_def fetchDailyArtwork_try_def Let_def
        split: response.split)

lemma searchArtworks_keeps [simp]:
  "artwork (searchArtworks q sa oa s) = artwork s"
  "dotsWide (searchArtworks q sa oa s) = dotsWide s"
  "gameState (searchArtworks q sa oa s) = gameState s"
  "isLoading (searchArtworks q sa oa s) = isLoading s"
  "pendingDaily (searchArtworks q sa oa s) = pendingDaily s"
  by (simp_all add: searchArtworks_def searchArtworks_try_def Let_def
        split: response.split sum.split)

lemma handleGuess_dotsWide:
  "dotsWide (snd (handleGuess sel s)) =
     (case artwork s of
        None \<Rightarrow> dotsWide s
      | Some a \<Rightarrow> if res_id sel = art_id a then dotsWide s else dotsWide s + 10)"
  by (simp add: handleGuess_def Let_def split: option.split)

lemma handleGuess_gameState:
  "gameState (snd (handleGuess sel s)) =
     (case artwork s of
        None \<Rightarrow> gameState s
      | Some a \<Rightarrow> if res_id sel = art_id a then ''won'' else gameState s)"
  by (simp add: handleGuess_def Let_def split: option.split)

lemma handleSkip_keeps [simp]:
  "dotsWide (snd (handleSkip s)) = dotsWide s + 10"
  "gameState (snd (handleSkip s)) = gameState s"
  "artwork (snd (handleSkip s)) = artwork s"
  "isLoading (snd (handleSkip s)) = isLoading s"
  by (simp_all add: handleSkip_def Let_def split: option.split)

subsection \<open>The resolution and the game state along a session\<close>

lemma step_dotsWide:
  "dotsWide (step e s) =
     (case e of
        Skip \<Rightarrow> dotsWide s + 10
      | Guess sel \<Rightarrow>
          (case artwork s of
             None \<Rightarrow> dotsWide s
           | Some a \<Rightarrow> if res_id sel = art_id a then dotsWide s else dotsWide s + 10)
      | _ \<Rightarrow> dotsWide s)"
  by (simp add: step_def handle_def handleGuess_dotsWide split: event.split)

lemma step_gameState:
  "gameState (step e s) =
     (case e of
        Guess sel \<Rightarrow>
          (case artwork s of
             None \<Rightarrow> gameState s
           | Some a \<Rightarrow> if res_id sel = art_id a then ''won'' else gameState s)
      | _ \<Rightarrow> gameState s)"
  by (simp add: step_def handle_def handleGuess_gameState split: event.split)

lemma step_dotsWide_mono: "dotsWide s \<le> dotsWide (step e s)"
  by (simp add: step_dotsWide split: event.split option.split)

lemma reachable_dotsWide: "reachable s \<Longrightarrow> 10 \<le> dotsWide s"
proof (induction rule: reachable.induct)
  case (mounted now)
  then show ?case by (simp add: initialState_def)
next
  case (stepped s e)
  then show ?case using step_dotsWide_mono[of s e] by simp
qed

lemma reachable_gameState: "reachable s \<Longrightarrow> gameState s = ''playing'' \<or> gameState s = ''won''"
proof (induction rule: reachable.induct)
  case (mounted now)
  then show ?case by (simp add: initialState_def)
next
  case (stepped s e)
  then show ?case by (auto simp add: step_gameState split: event.split option.split)
qed


lemma enabled_Skip: "enabled Skip s \<longleftrightarrow> \<not> isLoading s \<and> gameState s = ''playing''"
  by (simp add: enabled_def)

lemma step_isLoading_controls:
  "isLoading (step Skip s) = isLoading s"
  "isLoading (step (SetSearchValue v) s) = isLoading s"
  "isLoading (step (SetOpen b) s) = isLoading s"
  by (simp_all add: step_def handle_def)

lemma handleGuess_isLoading: "isLoading (snd (handleGuess sel s)) = isLoading s"
  by (simp add: handleGuess_def Let_def split: option.split)

lemma step_Guess_isLoading: "isLoading (step (Guess sel) s) = isLoading s"
  by (simp add: step_def handle_def handleGuess_isLoading)

lemma session_dotsWide_mono: "dotsWide s \<le> dotsWide (session es s)"
proof (induction es arbitrary: s)
  case Nil
  show ?case by simp
next
  case (Cons e es)
  have "dotsWide s \<le> dotsWide (step e s)" by (rule step_dotsWide_mono)
  also have "\<dots> \<le> dotsWide (session es (step e s))" by (rule Cons.IH)
  finally show ?case by simp
qed

lemma skips_reachable:
  "reachable s \<Longrightarrow> enabled Skip s \<Longrightarrow>
   reachable (session (replicate k Skip) s) \<and> enabled Skip (session (replicate k Skip) s)
   \<and> dotsWide (session (replicate k Skip) s) = dotsWide s + 10 * int k"
proof (induction k arbitrary: s)
  case 0
  then show ?case by simp
next
  case (Suc k)
  have r: "reachable (step Skip s)" using Suc.prems by (intro stepped)
  have e: "enabled Skip (step Skip s)"
    using Suc.prems(2) by (simp add: enabled_Skip step_gameState step_isLoading_controls)
  from Suc.IH[OF r e] show ?case by (simp add: step_dotsWide)
qed

lemma eligible_sampleObject: "eligible sampleObject"
  by (simp add: eligible_def sampleObject_def truthy_string_def truthy_bool_def)

lemma playingState_fields:
  "artwork playingState = Some (toArtwork sampleObject)"
  "dotsWide playingState = 10"
  "isLoading playingState = False"
  "gameState playingState = ''playing''"
  by (simp_all add: playingState_def step_def handle_def fetchDailyArtwork_resume_def
        fetchDailyArtwork_try_def eligible_sampleObject initialState_def Let_def)

lemma reachable_playingState: "reachable playingState"
  unfolding playingState_def
  by (intro stepped mounted) (simp add: enabled_def)

lemma enabled_Skip_playingState: "enabled Skip playingState"
  by (simp add: enabled_Skip playingState_fields)

lemma dotsWide_unbounded: "\<exists>s'. reachable s' \<and> enabled Skip s' \<and> n < dotsWide s'"
proof -
  let ?s = "session (replicate (nat n) Skip) playingState"
  from skips_reachable[OF reachable_playingState enabled_Skip_playingState, of "nat n"]
  have "reachable ?s" and "enabled Skip ?s" and "dotsWide ?s = 10 + 10 * int (nat n)"
    by (simp_all add: playingState_fields)
  moreover have "n < 10 + 10 * int (nat n)" by simp
  ultimately show ?thesis by (intro exI[of _ ?s]) simp
qed

text \<open>
  What the code does do of C3. In every reachable state the resolution is a positive
  integer. No event decreases it, so it never decreases along a session. Every skip adds
  exactly 10, and so does every guess made while an artwork is loaded whose identifier
  differs from the identifier of the artwork. Skipping never disables the controls, and for
  every bound there is a reachable state, still being played, whose resolution is above it:
  nothing stops the increase and no resolution ends the game.
\<close>

theorem dotsWide_increasing_only:
  "(reachable s \<longrightarrow> 0 < dotsWide s)
   \<and> dotsWide s \<le> dotsWide (step e s)
   \<and> dotsWide s \<le> dotsWide (session es s)
   \<and> dotsWide (step Skip s) = dotsWide s + 10
   \<and> (artwork s = Some a \<and> res_id sel \<noteq> art_id a
        \<longrightarrow> dotsWide (step (Guess sel) s) = dotsWide s + 10)
   \<and> (enabled Skip s \<longrightarrow> enabled Skip (step Skip s))
   \<and> (\<exists>s'. reachable s' \<and> enabled Skip s' \<and> n < dotsWide s')"
proof (intro conjI)
  show "reachable s \<longrightarrow> 0 < dotsWide s"
    using reachable_dotsWide[of s] by auto
  show "dotsWide s \<le> dotsWide (step e s)" by (rule step_dotsWide_mono)
  show "dotsWide s \<le> dotsWide (session es s)" by (rule session_dotsWide_mono)
  show "dotsWide (step Skip s) = dotsWide s + 10" by (simp add: step_dotsWide)
  show "artwork s = Some a \<and> res_id sel \<noteq> art_id a
        \<longrightarrow> dotsWide (step (Guess sel) s) = dotsWide s + 10"
    by (simp add: step_dotsWide)
  show "enabled Skip s \<longrightarrow> enabled Skip (step Skip s)"
    by (simp add: enabled_Skip step_gameState step_isLoading_controls)
  show "\<exists>s'. reachable s' \<and> enabled Skip s' \<and> n < dotsWide s'"
    by (rule dotsWide_unbounded)
qed

theorem dotsWide_increasing_only_witness:
  "reachable playingState \<and> enabled Skip playingState
   \<and> artwork playingState = Some (toArtwork sampleObject)
   \<and> res_id sampleOther \<noteq> art_id (toArtwork sampleObject)
   \<and> 0 < dotsWide playingState
   \<and> dotsWide (step Skip playingState) = 20
   \<and> dotsWide (step (Guess sampleOther) playingState) = 20
   \<and> enabled Skip (step Skip playingState)"
proof -
  have "res_id sampleOther \<noteq> art_id (toArtwork sampleObject)"
    by (simp add: sampleOther_def formatResult_def sampleBowl_def toArtwork_def sampleObject_def)
  then show ?thesis
    using dotsWide_increasing_only
      [of playingState "Skip" "[]" "toArtwork sampleObject" sampleOther 0]
      reachable_playingState enabled_Skip_playingState
    by (simp add: playingState_fields)
qed

subsection \<open>Guessing\<close>

lemma handleGuess_with_artwork:
  "artwork s = Some a \<Longrightarrow>
   handleGuess sel s =
     (None,
      (if res_id sel = art_id a then s\<lparr>gameState := ''won''\<rparr>
       else processImage (dotsWide s) (art_image a) (s\<lparr>dotsWide := dotsWide s + 10\<rparr>))
        \<lparr>popoverOpen := False, searchValue := [], searchResults := []\<rparr>)"
  by (simp add: handleGuess_def Let_def)

lemma handleGuess_without_artwork:
  "artwork s = None \<Longrightarrow> handleGuess sel s = (Some TypeError, s)"
  by (simp add: handleGuess_def)

lemma handleGuess_calls:
  "artwork s = Some a \<Longrightarrow> res_id sel \<noteq> art_id a \<Longrightarrow>
   processImageCalls (snd (handleGuess sel s)) = processImageCalls s @ [(art_image a, dotsWide s)]"
  by (simp add: handleGuess_with_artwork processImage_def)

lemma step_Guess_calls:
  "artwork s = Some a \<Longrightarrow> res_id sel \<noteq> art_id a \<Longrightarrow>
   processImageCalls (step (Guess sel) s) =
     processImageCalls s @ (art_image a, dotsWide s)
       # (if truthy_string (art_image a) then [(art_image a, dotsWide s + 10)] else [])"
  by (simp add: step_def handle_def handleGuess_with_artwork renderEffect_def processImage_def)

lemma enabled_controls:
  "enabled (SetSearchValue v) s \<longleftrightarrow> \<not> isLoading s \<and> gameState s = ''playing''"
  "enabled (SetOpen b) s \<longleftrightarrow> \<not> isLoading s \<and> gameState s = ''playing''"
  "enabled (Guess sel) s \<longleftrightarrow>
     \<not> isLoading s \<and> gameState s = ''playing'' \<and> sel \<in> set (searchResults s)"
  by (simp_all add: enabled_def)

lemma guessState_fields:
  "artwork guessState = Some (toArtwork sampleObject)"
  "dotsWide guessState = 10"
  "isLoading guessState = False"
  "gameState guessState = ''playing''"
  by (simp_all add: guessState_def step_def handle_def playingState_fields)

lemma guessState_searchResults:
  "searchResults guessState = [formatResult sampleBowl, formatResult sampleObject]"
  by (simp add: guessState_def step_def handle_def searchArtworks_def searchArtworks_try_def
        sampleSearchApi_def sampleObjectApi_def limitedIds_def keepItem_def truthy_string_def
        truthy_bool_def sampleNoImage_def sampleBowl_def sampleObject_def Let_def)

lemma reachable_guessState: "reachable guessState"
  unfolding guessState_def
  by (intro stepped reachable_playingState) (simp add: enabled_def)


text \<open>
  What the code does do of C4. For a listed search result picked while an artwork is
  loaded, \<^verbatim>\<open>handleGuess\<close> raises nothing and the game is won afterwards if and only if the identifier of the result
  is the identifier of the artwork. When they differ, the game is still being played, the
  resolution is 10 higher, the handler has called \<^verbatim>\<open>processImage\<close> on the image of the
  artwork (with the resolution of its closure), the effect of the next render calls it again
  with the new resolution, and the controls are still there: the loop goes on until a correct
  guess.
\<close>

theorem handleGuess_won_iff_same_id:
  assumes "enabled (Guess sel) s" and "artwork s = Some a"
  shows "fst (handleGuess sel s) = None
    \<and> (gameState (snd (handleGuess sel s)) = ''won'' \<longleftrightarrow> res_id sel = art_id a)
    \<and> (gameState (step (Guess sel) s) = ''won'' \<longleftrightarrow> res_id sel = art_id a)
    \<and> (res_id sel \<noteq> art_id a \<longrightarrow>
          gameState (step (Guess sel) s) = ''playing''
        \<and> dotsWide (step (Guess sel) s) = dotsWide s + 10
        \<and> processImageCalls (snd (handleGuess sel s))
             = processImageCalls s @ [(art_image a, dotsWide s)]
        \<and> processImageCalls (step (Guess sel) s)
             = processImageCalls s @ (art_image a, dotsWide s)
                 # (if truthy_string (art_image a) then [(art_image a, dotsWide s + 10)] else [])
        \<and> enabled Skip (step (Guess sel) s)
        \<and> enabled (SetSearchValue v) (step (Guess sel) s))"
proof -
  from assms(1) have p: "gameState s = ''playing''" and l: "\<not> isLoading s"
    by (simp_all add: enabled_controls)
  have 1: "fst (handleGuess sel s) = None"
    using assms(2) by (simp add: handleGuess_with_artwork)
  have 2: "gameState (snd (handleGuess sel s)) = ''won'' \<longleftrightarrow> res_id sel = art_id a"
    using assms(2) p by (simp add: handleGuess_gameState)
  have 3: "gameState (step (Guess sel) s) = ''won'' \<longleftrightarrow> res_id sel = art_id a"
    using assms(2) p by (simp add: step_gameState)
  have 4: "res_id sel \<noteq> art_id a \<longrightarrow>
          gameState (step (Guess sel) s) = ''playing''
        \<and> dotsWide (step (Guess sel) s) = dotsWide s + 10
        \<and> processImageCalls (snd (handleGuess sel s))
             = processImageCalls s @ [(art_image a, dotsWide s)]
        \<and> processImageCalls (step (Guess sel) s)
             = processImageCalls s @ (art_image a, dotsWide s)
                 # (if truthy_string (art_image a) then [(art_image a, dotsWide s + 10)] else [])
        \<and> enabled Skip (step (Guess sel) s)
        \<and> enabled (SetSearchValue v) (step (Guess sel) s)"
  proof
    assume d: "res_id sel \<noteq> art_id a"
    have g: "gameState (step (Guess sel) s) = ''playing''"
      using assms(2) p d by (simp add: step_gameState)
    have w: "dotsWide (step (Guess sel) s) = dotsWide s + 10"
      using assms(2) d by (simp add: step_dotsWide)
    have i: "\<not> isLoading (step (Guess sel) s)"
      using l by (simp add: step_Guess_isLoading)
    show "gameState (step (Guess sel) s) = ''playing''
        \<and> dotsWide (step (Guess sel) s) = dotsWide s + 10
        \<and> processImageCalls (snd (handleGuess sel s))
             = processImageCalls s @ [(art_image a, dotsWide s)]
        \<and> processImageCalls (step (Guess sel) s)
             = processImageCalls s @ (art_image a, dotsWide s)
                 # (if truthy_string (art_image a) then [(art_image a, dotsWide s + 10)] else [])
        \<and> enabled Skip (step (Guess sel) s)
        \<and> enabled (SetSearchValue v) (step (Guess sel) s)"
      using g w i handleGuess_calls[OF assms(2) d] step_Guess_calls[OF assms(2) d]
      by (simp add: enabled_Skip enabled_controls)
  qed
  from 1 2 3 4 show ?thesis by (intro conjI)
qed



theorem handleGuess_won_iff_same_id_witness:
  "enabled (Guess sampleOther) guessState
   \<and> enabled (Guess (formatResult sampleObject)) guessState
   \<and> artwork guessState = Some (toArtwork sampleObject)
   \<and> gameState (step (Guess (formatResult sampleObject)) guessState) = ''won''
   \<and> gameState (step (Guess sampleOther) guessState) = ''playing''
   \<and> dotsWide (step (Guess sampleOther) guessState) = 20
   \<and> enabled Skip (step (Guess sampleOther) guessState)"
proof -
  have e1: "enabled (Guess sampleOther) guessState"
    by (simp add: enabled_controls guessState_fields guessState_searchResults sampleOther_def)
  have e2: "enabled (Guess (formatResult sampleObject)) guessState"
    by (simp add: enabled_controls guessState_fields guessState_searchResults)
  have a: "artwork guessState = Some (toArtwork sampleObject)"
    by (simp add: guessState_fields)
  have d: "res_id sampleOther \<noteq> art_id (toArtwork sampleObject)"
    by (simp add: sampleOther_def formatResult_def sampleBowl_def toArtwork_def sampleObject_def)
  have s: "res_id (formatResult sampleObject) = art_id (toArtwork sampleObject)"
    by (simp add: formatResult_def toArtwork_def)
  show ?thesis
    using handleGuess_won_iff_same_id[OF e1 a, of "[]"]
      handleGuess_won_iff_same_id[OF e2 a, of "[]"] e1 e2 a d s
    by (simp add: guessState_fields)
qed

subsection \<open>The values of the game state\<close>

lemma step_gameState_cases:
  "gameState (step e s) = gameState s \<or> gameState (step e s) = ''won''"
  by (simp add: step_gameState split: event.split option.split)

lemma step_gameState_change:
  assumes "gameState (step e s) \<noteq> gameState s"
  shows "gameState (step e s) = ''won''
    \<and> (\<exists>sel a. e = Guess sel \<and> artwork s = Some a \<and> res_id sel = art_id a)"
  using assms by (cases e; cases "artwork s") (auto simp add: step_gameState split: if_splits)

text \<open>
  C8. The game state starts as \<^verbatim>\<open>playing\<close>; in every reachable state it is
  \<^verbatim>\<open>playing\<close> or \<^verbatim>\<open>won\<close>, never \<^verbatim>\<open>lost\<close>. An event leaves it as it is or sets
  it to \<^verbatim>\<open>won\<close>; from a reachable state it changes only from \<^verbatim>\<open>playing\<close> to
  \<^verbatim>\<open>won\<close>, and only by a guess whose identifier is the identifier of the artwork; such
  a guess does set it to \<^verbatim>\<open>won\<close>.
\<close>

theorem gameState_playing_or_won:
  "gameState initialState = ''playing''
   \<and> (reachable s \<longrightarrow> gameState s = ''playing'' \<or> gameState s = ''won'')
   \<and> (reachable s \<longrightarrow> gameState s \<noteq> ''lost'')
   \<and> (gameState (step e s) = gameState s \<or> gameState (step e s) = ''won'')
   \<and> (reachable s \<and> gameState (step e s) \<noteq> gameState s \<longrightarrow>
         gameState s = ''playing'' \<and> gameState (step e s) = ''won''
         \<and> (\<exists>sel a. e = Guess sel \<and> artwork s = Some a \<and> res_id sel = art_id a))
   \<and> (artwork s = Some a \<and> res_id sel = art_id a
         \<longrightarrow> gameState (step (Guess sel) s) = ''won'')"
proof (intro conjI)
  show "gameState initialState = ''playing''" by (simp add: initialState_def)
  show "reachable s \<longrightarrow> gameState s = ''playing'' \<or> gameState s = ''won''"
    using reachable_gameState[of s] by simp
  show "reachable s \<longrightarrow> gameState s \<noteq> ''lost''"
    using reachable_gameState[of s] by auto
  show "gameState (step e s) = gameState s \<or> gameState (step e s) = ''won''"
    by (rule step_gameState_cases)
  show "reachable s \<and> gameState (step e s) \<noteq> gameState s \<longrightarrow>
         gameState s = ''playing'' \<and> gameState (step e s) = ''won''
         \<and> (\<exists>sel a. e = Guess sel \<and> artwork s = Some a \<and> res_id sel = art_id a)"
    using reachable_gameState[of s] step_gameState_change[of e s] by auto
  show "artwork s = Some a \<and> res_id sel = art_id a
         \<longrightarrow> gameState (step (Guess sel) s) = ''won''"
    by (simp add: step_gameState)
qed

theorem gameState_playing_or_won_witness:
  "reachable guessState \<and> gameState guessState = ''playing''
   \<and> gameState (step (Guess (formatResult sampleObject)) guessState) = ''won''
   \<and> gameState guessState \<noteq> ''lost''"
proof -
  note t = gameState_playing_or_won
      [of guessState "Guess (formatResult sampleObject)" "toArtwork sampleObject"
          "formatResult sampleObject"]
  have s: "res_id (formatResult sampleObject) = art_id (toArtwork sampleObject)"
    by (simp add: formatResult_def toArtwork_def)
  have w: "gameState (step (Guess (formatResult sampleObject)) guessState) = ''won''"
    using t[THEN conjunct2, THEN conjunct2, THEN conjunct2, THEN conjunct2, THEN conjunct2]
      s guessState_fields(1) by (simp only: simp_thms)
  have l: "gameState guessState \<noteq> ''lost''"
    using t[THEN conjunct2, THEN conjunct2, THEN conjunct1] reachable_guessState by (rule mp)
  from reachable_guessState guessState_fields(4) w l show ?thesis by (intro conjI)
qed

subsection \<open>The daily request and its retries\<close>

lemma fetchDailyArtwork_resume_error:
  "fetchDailyArtwork_resume now (Rejects e) s =
     s\<lparr>pendingDaily := tl (pendingDaily s),
       console := console s @ [(''Error fetching artwork:'', e)],
       isLoading := False\<rparr>"
  by (simp add: fetchDailyArtwork_resume_def fetchDailyArtwork_try_def)

lemma fetchDailyArtwork_resume_null:
  "fetchDailyArtwork_resume now JsonNull s =
     s\<lparr>pendingDaily := tl (pendingDaily s),
       console := console s @ [(''Error fetching artwork:'', TypeError)],
       isLoading := False\<rparr>"
  by (simp add: fetchDailyArtwork_resume_def fetchDailyArtwork_try_def)

lemma fetchDailyArtwork_resume_eligible:
  "eligible data \<Longrightarrow>
   fetchDailyArtwork_resume now (Json data) s =
     s\<lparr>pendingDaily := tl (pendingDaily s), artwork := Some (toArtwork data),
       isLoading := False\<rparr>"
  by (simp add: fetchDailyArtwork_resume_def fetchDailyArtwork_try_def)

lemma fetchDailyArtwork_resume_ineligible:
  "\<not> eligible data \<Longrightarrow>
   fetchDailyArtwork_resume now (Json data) s =
     s\<lparr>pendingDaily := tl (pendingDaily s) @ [getDailyArtworkId now], artwork := None,
       requests := requests s @ [ObjectRequest (getDailyArtworkId now)],
       isLoading := False\<rparr>"
  by (simp add: fetchDailyArtwork_resume_def fetchDailyArtwork_try_def fetchDailyArtwork_def
        Let_def)

lemma not_eligible_cases:
  "\<not> eligible data \<longleftrightarrow>
     \<not> truthy_string (primaryImage data) \<or> \<not> truthy_string (title data)
     \<or> \<not> truthy_string (artistDisplayName data) \<or> isPublicDomain data \<noteq> Some True"
  by (cases "isPublicDomain data") (auto simp add: eligible_def truthy_bool_def)

lemma settle_Some_pending:
  assumes "fetchDailyArtwork_settle clock api k s = Some y"
  shows "(\<forall>k i. \<exists>data. api k i = Json data \<and> \<not> eligible data) \<longrightarrow> pendingDaily s = []"
proof (rule fetchDailyArtwork_settle.raw_induct
    [where P = "\<lambda>clock api k s y.
        (\<forall>k i. \<exists>data. api k i = Json data \<and> \<not> eligible data) \<longrightarrow> pendingDaily s = []",
     OF _ assms])
  fix settle :: "(nat \<Rightarrow> jsdate) \<Rightarrow> (nat \<Rightarrow> int \<Rightarrow> met_object response) \<Rightarrow> nat \<Rightarrow> state \<Rightarrow> state option"
    and clock api k s y
  assume IH: "\<And>clock api k s y. settle clock api k s = Some y \<Longrightarrow>
      (\<forall>k i. \<exists>data. api k i = Json data \<and> \<not> eligible data) \<longrightarrow> pendingDaily s = []"
    and eq: "(case pendingDaily s of
        [] \<Rightarrow> Some s
      | objectId # _ \<Rightarrow>
          settle clock api (Suc k) (fetchDailyArtwork_resume (clock k) (api k objectId) s)) = Some y"
  show "(\<forall>k i. \<exists>data. api k i = Json data \<and> \<not> eligible data) \<longrightarrow> pendingDaily s = []"
  proof (cases "pendingDaily s")
    case Nil
    then show ?thesis by simp
  next
    case (Cons objectId rest)
    show ?thesis
    proof
      assume bad: "\<forall>k i. \<exists>data. api k i = Json data \<and> \<not> eligible data"
      then obtain data where d: "api k objectId = Json data" "\<not> eligible data" by blast
      from eq Cons have "settle clock api (Suc k)
          (fetchDailyArtwork_resume (clock k) (api k objectId) s) = Some y" by simp
      from IH[OF this] bad
      have "pendingDaily (fetchDailyArtwork_resume (clock k) (api k objectId) s) = []" by blast
      then show "pendingDaily s = []"
        using d by (simp add: fetchDailyArtwork_resume_ineligible)
    qed
  qed
qed

lemma settle_never_ends:
  assumes "\<forall>k i. \<exists>data. api k i = Json data \<and> \<not> eligible data" and "pendingDaily s \<noteq> []"
  shows "fetchDailyArtwork_settle clock api k s = None"
proof (cases "fetchDailyArtwork_settle clock api k s")
  case None
  then show ?thesis .
next
  case (Some y)
  from settle_Some_pending[OF Some] assms show ?thesis by blast
qed

lemma settle_done: "pendingDaily s = [] \<Longrightarrow> fetchDailyArtwork_settle clock api k s = Some s"
  by (subst fetchDailyArtwork_settle.simps) simp

lemma settle_step:
  "pendingDaily s = i # rest \<Longrightarrow>
   fetchDailyArtwork_settle clock api k s =
     fetchDailyArtwork_settle clock api (Suc k) (fetchDailyArtwork_resume (clock k) (api k i) s)"
  by (subst fetchDailyArtwork_settle.simps) simp


lemma settle_after_retries:
  assumes "\<not> eligible bad" and "eligible good"
  shows "pendingDaily s = [i] \<Longrightarrow> k \<le> n \<Longrightarrow>
     \<exists>s'. fetchDailyArtwork_settle clock (\<lambda>j _. Json (if j < n then bad else good)) k s = Some s'
          \<and> length (requests s') = length (requests s) + (n - k)
          \<and> artwork s' = Some (toArtwork good)"
proof (induction "n - k" arbitrary: k s i)
  case 0
  then have kn: "k = n" by simp
  let ?api = "\<lambda>j (_::int). Json (if j < n then bad else good)"
  have "fetchDailyArtwork_settle clock ?api k s
        = fetchDailyArtwork_settle clock ?api (Suc k) (fetchDailyArtwork_resume (clock k) (Json good) s)"
    using settle_step[OF 0(2), of clock ?api k] kn by simp
  also have "\<dots> = Some (fetchDailyArtwork_resume (clock k) (Json good) s)"
    using 0(2) assms(2) by (intro settle_done) (simp add: fetchDailyArtwork_resume_eligible)
  finally show ?case using assms(2) kn by (simp add: fetchDailyArtwork_resume_eligible)
next
  case (Suc m)
  then have kn: "k < n" and m: "m = n - Suc k" by simp_all
  let ?api = "\<lambda>j (_::int). Json (if j < n then bad else good)"
  let ?s1 = "fetchDailyArtwork_resume (clock k) (Json bad) s"
  have p: "pendingDaily ?s1 = [getDailyArtworkId (clock k)]"
    using Suc(3) assms(1) by (simp add: fetchDailyArtwork_resume_ineligible)
  have r: "length (requests ?s1) = length (requests s) + 1"
    using assms(1) by (simp add: fetchDailyArtwork_resume_ineligible)
  from Suc(1)[OF m p] kn obtain s' where
    s': "fetchDailyArtwork_settle clock ?api (Suc k) ?s1 = Some s'"
        "length (requests s') = length (requests ?s1) + (n - Suc k)"
        "artwork s' = Some (toArtwork good)"
    by auto
  have "fetchDailyArtwork_settle clock ?api k s = fetchDailyArtwork_settle clock ?api (Suc k) ?s1"
    using settle_step[OF Suc(3), of clock ?api k] kn by simp
  with s' r kn show ?case by simp
qed


lemma not_eligible_sampleNoImage: "\<not> eligible sampleNoImage"
  by (simp add: eligible_def sampleNoImage_def truthy_string_def)

lemma retries_unbounded:
  "\<exists>api s'. fetchDailyArtwork_settle clock api 0 (fetchDailyArtwork now initialState) = Some s'
      \<and> n < length (requests s')"
proof -
  have "pendingDaily (fetchDailyArtwork now initialState) = [getDailyArtworkId now]"
    by (simp add: initialState_def)
  from settle_after_retries[OF not_eligible_sampleNoImage eligible_sampleObject this, of 0 n clock]
  obtain s' where
    "fetchDailyArtwork_settle clock (\<lambda>j _. Json (if j < n then sampleNoImage else sampleObject)) 0
       (fetchDailyArtwork now initialState) = Some s'"
    "length (requests s') = length (requests (fetchDailyArtwork now initialState)) + (n - 0)"
    by auto
  then show ?thesis by (intro exI[of _ "\<lambda>j _. Json (if j < n then sampleNoImage else sampleObject)"] exI[of _ s']) simp
qed

text \<open>
  C2. A record is ineligible exactly when its image, its title or its artist is missing or it
  is not in the public domain. When the response of the daily request is such a record, the
  continuation sets the artwork to \<^verbatim>\<open>null\<close> and, in the same step, issues a new request
  for the identifier of the current date: on the same calendar day, the identifier just
  refused. Against a server that keeps answering with ineligible records the chain of
  requests never ends, and for every number there is a server for which the chain ends only
  after more requests than that: there is no bound on the retries.
\<close>

theorem fetchDailyArtwork_refetches_without_bound:
  "(\<not> eligible data \<longleftrightarrow>
       \<not> truthy_string (primaryImage data) \<or> \<not> truthy_string (title data)
     \<or> \<not> truthy_string (artistDisplayName data) \<or> isPublicDomain data \<noteq> Some True)
   \<and> (\<not> eligible data \<longrightarrow>
         artwork (fetchDailyArtwork_resume now (Json data) s) = None
       \<and> requests (fetchDailyArtwork_resume now (Json data) s)
           = requests s @ [ObjectRequest (getDailyArtworkId now)]
       \<and> pendingDaily (fetchDailyArtwork_resume now (Json data) s)
           = tl (pendingDaily s) @ [getDailyArtworkId now])
   \<and> (\<not> eligible data \<and> pendingDaily s = [getDailyArtworkId d0]
        \<and> year now = year d0 \<and> month now = month d0 \<and> day now = day d0
       \<longrightarrow> pendingDaily (fetchDailyArtwork_resume now (Json data) s) = pendingDaily s)
   \<and> ((\<forall>k i. \<exists>data. api k i = Json data \<and> \<not> eligible data) \<and> pendingDaily s \<noteq> []
       \<longrightarrow> fetchDailyArtwork_settle clock api k s = None)
   \<and> (\<exists>api s'. fetchDailyArtwork_settle clock api 0 (fetchDailyArtwork now initialState) = Some s'
         \<and> n < length (requests s'))"
proof (intro conjI)
  show "\<not> eligible data \<longleftrightarrow>
       \<not> truthy_string (primaryImage data) \<or> \<not> truthy_string (title data)
     \<or> \<not> truthy_string (artistDisplayName data) \<or> isPublicDomain data \<noteq> Some True"
    by (rule not_eligible_cases)
  show "\<not> eligible data \<longrightarrow>
         artwork (fetchDailyArtwork_resume now (Json data) s) = None
       \<and> requests (fetchDailyArtwork_resume now (Json data) s)
           = requests s @ [ObjectRequest (getDailyArtworkId now)]
       \<and> pendingDaily (fetchDailyArtwork_resume now (Json data) s)
           = tl (pendingDaily s) @ [getDailyArtworkId now]"
    by (simp add: fetchDailyArtwork_resume_ineligible)
  show "\<not> eligible data \<and> pendingDaily s = [getDailyArtworkId d0]
        \<and> year now = year d0 \<and> month now = month d0 \<and> day now = day d0
       \<longrightarrow> pendingDaily (fetchDailyArtwork_resume now (Json data) s) = pendingDaily s"
    using getDailyArtworkId_same_day[of now d0]
    by (simp add: fetchDailyArtwork_resume_ineligible)
  show "(\<forall>k i. \<exists>data. api k i = Json data \<and> \<not> eligible data) \<and> pendingDaily s \<noteq> []
       \<longrightarrow> fetchDailyArtwork_settle clock api k s = None"
    using settle_never_ends[of api s clock k] by blast
  show "\<exists>api s'. fetchDailyArtwork_settle clock api 0 (fetchDailyArtwork now initialState) = Some s'
         \<and> n < length (requests s')"
    by (rule retries_unbounded)
qed

theorem fetchDailyArtwork_refetches_without_bound_witness:
  "\<not> eligible sampleNoImage
   \<and> artwork (fetchDailyArtwork_resume sampleDate (Json sampleNoImage)
        (fetchDailyArtwork sampleDate initialState)) = None
   \<and> pendingDaily (fetchDailyArtwork_resume sampleDate (Json sampleNoImage)
        (fetchDailyArtwork sampleDate initialState)) = [getDailyArtworkId sampleDate]
   \<and> fetchDailyArtwork_settle (\<lambda>k. sampleDate) (\<lambda>k i. Json sampleNoImage) 0
        (fetchDailyArtwork sampleDate initialState) = None"
proof -
  note t = fetchDailyArtwork_refetches_without_bound
    [of sampleNoImage sampleDate "fetchDailyArtwork sampleDate initialState" sampleDate
        "\<lambda>k i. Json sampleNoImage" "\<lambda>k. sampleDate" 0 0]
  have p: "pendingDaily (fetchDailyArtwork sampleDate initialState) = [getDailyArtworkId sampleDate]"
    by (simp add: initialState_def)
  have a: "artwork (fetchDailyArtwork_resume sampleDate (Json sampleNoImage)
        (fetchDailyArtwork sampleDate initialState)) = None"
    using t[THEN conjunct2, THEN conjunct1] not_eligible_sampleNoImage by simp
  have b: "pendingDaily (fetchDailyArtwork_resume sampleDate (Json sampleNoImage)
        (fetchDailyArtwork sampleDate initialState)) = [getDailyArtworkId sampleDate]"
    using t[THEN conjunct2, THEN conjunct2, THEN conjunct1] not_eligible_sampleNoImage p by simp
  have c: "fetchDailyArtwork_settle (\<lambda>k. sampleDate) (\<lambda>k i. Json sampleNoImage) 0
        (fetchDailyArtwork sampleDate initialState) = None"
    using t[THEN conjunct2, THEN conjunct2, THEN conjunct2, THEN conjunct1]
      not_eligible_sampleNoImage p by auto
  from not_eligible_sampleNoImage a b c show ?thesis by (intro conjI)
qed

subsection \<open>Searching\<close>

lemma promiseAll_length: "promiseAll rs = Inr xs \<Longrightarrow> length xs = length rs"
  by (induction rs arbitrary: xs rule: promiseAll.induct) (auto split: sum.splits)

lemma promiseAll_member:
  "promiseAll rs = Inr xs \<Longrightarrow> Some item \<in> set xs \<Longrightarrow> Json item \<in> set rs"
  by (induction rs arbitrary: xs rule: promiseAll.induct) (auto split: sum.splits)

lemma promiseAll_rejects: "Rejects e \<in> set rs \<Longrightarrow> \<exists>e'. promiseAll rs = Inl e'"
  by (induction rs rule: promiseAll.induct) (auto split: sum.splits)

lemma filterItems_length: "filterItems xs = Inr ys \<Longrightarrow> length ys \<le> length xs"
  by (induction xs arbitrary: ys rule: filterItems.induct) (auto split: sum.splits if_splits)

lemma filterItems_member:
  "filterItems xs = Inr ys \<Longrightarrow> item \<in> set ys \<Longrightarrow> Some item \<in> set xs \<and> keepItem item"
  by (induction xs arbitrary: ys rule: filterItems.induct) (auto split: sum.splits if_splits)

lemma filterItems_null: "None \<in> set xs \<Longrightarrow> \<exists>e. filterItems xs = Inl e"
  by (induction xs rule: filterItems.induct) (auto split: sum.splits)

lemma length_limitedIds: "length (limitedIds data) \<le> 5"
  by (simp add: limitedIds_def split: option.split)

lemma searchArtworks_empty: "searchArtworks [] sa oa s = s\<lparr>searchResults := []\<rparr>"
  by (simp add: searchArtworks_def)

lemma searchArtworks_try_Inr:
  "searchArtworks_try q sa oa s = Inr s' \<Longrightarrow>
   \<exists>data details kept. sa q = Json data
     \<and> promiseAll (map oa (limitedIds data)) = Inr details
     \<and> filterItems details = Inr kept
     \<and> s' = s\<lparr>requests := requests s @ SearchRequest q # map ObjectRequest (limitedIds data),
              searchResults := map formatResult kept\<rparr>"
  by (auto simp add: searchArtworks_try_def Let_def split: response.splits sum.splits)

lemma searchArtworks_try_Inl:
  "searchArtworks_try q sa oa s = Inl (e, s') \<Longrightarrow>
   s' = s\<lparr>requests := requests s @ SearchRequest q
           # (case sa q of Json data \<Rightarrow> map ObjectRequest (limitedIds data) | _ \<Rightarrow> [])\<rparr>"
  by (auto simp add: searchArtworks_try_def Let_def split: response.splits sum.splits)

lemma searchArtworks_requests:
  assumes "q \<noteq> []"
  shows "requests (searchArtworks q sa oa s) =
     requests s @ SearchRequest q
       # (case sa q of Json data \<Rightarrow> map ObjectRequest (limitedIds data) | _ \<Rightarrow> [])"
proof (cases "searchArtworks_try q sa oa s")
  case (Inl p)
  obtain e s' where p: "p = (e, s')" by (cases p)
  from searchArtworks_try_Inl[OF Inl[unfolded p]] Inl p assms show ?thesis
    by (simp add: searchArtworks_def)
next
  case (Inr s')
  from searchArtworks_try_Inr[OF Inr] Inr assms show ?thesis
    by (auto simp add: searchArtworks_def)
qed

lemma searchArtworks_results_length: "length (searchResults (searchArtworks q sa oa s)) \<le> 5"
proof (cases "q = []")
  case True
  then show ?thesis by (simp add: searchArtworks_empty)
next
  case False
  show ?thesis
  proof (cases "searchArtworks_try q sa oa s")
    case (Inl p)
    then show ?thesis using False by (cases p) (simp add: searchArtworks_def)
  next
    case (Inr s')
    from searchArtworks_try_Inr[OF Inr] obtain data details kept where
      d: "promiseAll (map oa (limitedIds data)) = Inr details" "filterItems details = Inr kept"
         "searchResults s' = map formatResult kept"
      by auto
    have "length kept \<le> length (limitedIds data)"
      using promiseAll_length[OF d(1)] filterItems_length[OF d(2)] by simp
    also have "\<dots> \<le> 5" by (rule length_limitedIds)
    finally show ?thesis using Inr False d(3) by (simp add: searchArtworks_def)
  qed
qed

lemma searchArtworks_results_origin:
  assumes "x \<in> set (searchResults (searchArtworks q sa oa s))"
  shows "\<exists>data i item. q \<noteq> [] \<and> sa q = Json data \<and> i \<in> set (limitedIds data)
           \<and> oa i = Json item \<and> keepItem item \<and> x = formatResult item"
proof (cases "q = []")
  case True
  with assms show ?thesis by (simp add: searchArtworks_empty)
next
  case False
  show ?thesis
  proof (cases "searchArtworks_try q sa oa s")
    case (Inl p)
    with assms False show ?thesis by (cases p) (simp add: searchArtworks_def)
  next
    case (Inr s')
    from searchArtworks_try_Inr[OF Inr] obtain data details kept where
      d: "sa q = Json data" "promiseAll (map oa (limitedIds data)) = Inr details"
         "filterItems details = Inr kept" "searchResults s' = map formatResult kept"
      by auto
    from assms Inr False d(4) obtain item where i: "item \<in> set kept" "x = formatResult item"
      by (auto simp add: searchArtworks_def)
    from filterItems_member[OF d(3) i(1)] have k: "Some item \<in> set details" "keepItem item"
      by simp_all
    from promiseAll_member[OF d(2) k(1)] obtain j where
      "j \<in> set (limitedIds data)" "oa j = Json item" by auto
    with d(1) k(2) i(2) False show ?thesis by blast
  qed
qed

lemma keepItem_iff:
  "keepItem item \<longleftrightarrow>
     (\<exists>url. primaryImage item = Some url \<and> url \<noteq> []) \<and> isPublicDomain item = Some True"
  by (cases "primaryImage item"; cases "isPublicDomain item")
     (simp_all add: keepItem_def truthy_string_def truthy_bool_def)

lemma searchArtworks_error:
  assumes "q \<noteq> []" and "searchArtworks_try q sa oa s = Inl (e, s')"
  shows "searchResults (searchArtworks q sa oa s) = []"
    and "console (searchArtworks q sa oa s) = console s @ [(''Error searching artworks:'', e)]"
  using assms searchArtworks_try_Inl[OF assms(2)] by (simp_all add: searchArtworks_def)


text \<open>
  C9. Called with the empty query, \<^verbatim>\<open>searchArtworks\<close> only empties the list of search
  results: it issues no request.
\<close>

theorem searchArtworks_empty_query:
  "searchArtworks [] searchApi objectApi s = s\<lparr>searchResults := []\<rparr>
   \<and> searchResults (searchArtworks [] searchApi objectApi s) = []
   \<and> requests (searchArtworks [] searchApi objectApi s) = requests s"
  by (simp add: searchArtworks_empty)

text \<open>
  C6. For a non-empty query, the detail requests are those for the first five identifiers of
  the search response, in order, and none when the response has no list of identifiers; the
  list of search results has at most five elements.
\<close>

theorem searchArtworks_at_most_five:
  "query \<noteq> [] \<longrightarrow>
     requests (searchArtworks query searchApi objectApi s) =
       requests s @ SearchRequest query
         # (case searchApi query of
              Json data \<Rightarrow>
                map ObjectRequest (case objectIDs data of None \<Rightarrow> [] | Some ids \<Rightarrow> take 5 ids)
            | _ \<Rightarrow> [])
     \<and> length (searchResults (searchArtworks query searchApi objectApi s)) \<le> 5"
  using searchArtworks_requests[of query searchApi objectApi s]
    searchArtworks_results_length[of query searchApi objectApi s]
  by (simp add: limitedIds_def split: response.split)

lemma searchArtworks_sample_requests:
  "requests (searchArtworks ''bowl'' sampleSearchApi sampleObjectApi initialState) =
     [SearchRequest ''bowl'', ObjectRequest 7, ObjectRequest 8, ObjectRequest 400,
      ObjectRequest 9, ObjectRequest 10]"
  by (simp add: searchArtworks_requests sampleSearchApi_def limitedIds_def initialState_def)

theorem searchArtworks_at_most_five_witness:
  "requests (searchArtworks ''bowl'' sampleSearchApi sampleObjectApi initialState) =
     [SearchRequest ''bowl'', ObjectRequest 7, ObjectRequest 8, ObjectRequest 400,
      ObjectRequest 9, ObjectRequest 10]
   \<and> length (searchResults (searchArtworks ''bowl'' sampleSearchApi sampleObjectApi initialState)) \<le> 5"
proof -
  have "''bowl'' \<noteq> []" by simp
  with searchArtworks_at_most_five[of "''bowl''" sampleSearchApi sampleObjectApi initialState]
  have "length (searchResults (searchArtworks ''bowl'' sampleSearchApi sampleObjectApi initialState)) \<le> 5"
    by (elim impE conjE)
  with searchArtworks_sample_requests show ?thesis by (intro conjI)
qed

text \<open>
  C10. Every element of the list of search results is the formatted form of an item that was
  fetched for one of the first five identifiers of the search response and that has a
  non-empty image and is in the public domain.
\<close>

theorem searchResults_public_domain_with_image:
  "x \<in> set (searchResults (searchArtworks query searchApi objectApi s)) \<longrightarrow>
     (\<exists>data ids i item url. query \<noteq> [] \<and> searchApi query = Json data
        \<and> objectIDs data = Some ids \<and> i \<in> set (take 5 ids)
        \<and> objectApi i = Json item
        \<and> primaryImage item = Some url \<and> url \<noteq> [] \<and> isPublicDomain item = Some True
        \<and> x = formatResult item)"
proof
  assume "x \<in> set (searchResults (searchArtworks query searchApi objectApi s))"
  from searchArtworks_results_origin[OF this] obtain data i item where
    o: "query \<noteq> []" "searchApi query = Json data" "i \<in> set (limitedIds data)"
       "objectApi i = Json item" "keepItem item" "x = formatResult item"
    by blast
  from o(3) obtain ids where ids: "objectIDs data = Some ids" "i \<in> set (take 5 ids)"
    by (cases "objectIDs data") (simp_all add: limitedIds_def)
  from o(5) obtain url where u: "primaryImage item = Some url" "url \<noteq> []"
      "isPublicDomain item = Some True"
    by (auto simp add: keepItem_iff)
  from o ids u show "\<exists>data ids i item url. query \<noteq> [] \<and> searchApi query = Json data
        \<and> objectIDs data = Some ids \<and> i \<in> set (take 5 ids)
        \<and> objectApi i = Json item
        \<and> primaryImage item = Some url \<and> url \<noteq> [] \<and> isPublicDomain item = Some True
        \<and> x = formatResult item"
    by (intro exI[of _ data] exI[of _ ids] exI[of _ i] exI[of _ item] exI[of _ url]) simp
qed

lemma searchArtworks_sample_results:
  "searchResults (searchArtworks ''bowl'' sampleSearchApi sampleObjectApi playingState)
     = [formatResult sampleBowl, formatResult sampleObject]"
  using guessState_searchResults by (simp add: guessState_def step_def handle_def)

theorem searchResults_public_domain_with_image_witness:
  "sampleOther \<in> set (searchResults (searchArtworks ''bowl'' sampleSearchApi sampleObjectApi playingState))
   \<and> (\<exists>data ids i item url. ''bowl'' \<noteq> [] \<and> sampleSearchApi ''bowl'' = Json data
        \<and> objectIDs data = Some ids \<and> i \<in> set (take 5 ids)
        \<and> sampleObjectApi i = Json item
        \<and> primaryImage item = Some url \<and> url \<noteq> [] \<and> isPublicDomain item = Some True
        \<and> sampleOther = formatResult item)"
proof -
  have m: "sampleOther \<in> set (searchResults (searchArtworks ''bowl'' sampleSearchApi sampleObjectApi playingState))"
    by (simp add: searchArtworks_sample_results sampleOther_def)
  from searchResults_public_domain_with_image
        [of sampleOther "''bowl''" sampleSearchApi sampleObjectApi playingState] m
  have "\<exists>data ids i item url. ''bowl'' \<noteq> [] \<and> sampleSearchApi ''bowl'' = Json data
        \<and> objectIDs data = Some ids \<and> i \<in> set (take 5 ids)
        \<and> sampleObjectApi i = Json item
        \<and> primaryImage item = Some url \<and> url \<noteq> [] \<and> isPublicDomain item = Some True
        \<and> sampleOther = formatResult item"
    by (rule mp)
  with m show ?thesis by (intro conjI)
qed


subsection \<open>Failing requests\<close>

lemma searchArtworks_try_rejected:
  "sa q = Rejects e \<Longrightarrow>
   searchArtworks_try q sa oa s = Inl (e, s\<lparr>requests := requests s @ [SearchRequest q]\<rparr>)"
  by (simp add: searchArtworks_try_def)

lemma searchArtworks_try_detail_rejected:
  assumes "sa q = Json data" and "i \<in> set (limitedIds data)" and "oa i = Rejects e"
  shows "\<exists>e' s'. searchArtworks_try q sa oa s = Inl (e', s')"
proof -
  from assms(2,3) have "Rejects e \<in> set (map oa (limitedIds data))" by force
  from promiseAll_rejects[OF this] obtain e' where
    "promiseAll (map oa (limitedIds data)) = Inl e'" by blast
  with assms(1) show ?thesis by (simp add: searchArtworks_try_def Let_def)
qed

text \<open>
  C7. A request that fails (the network, the parsing of the body) inside
  \<^verbatim>\<open>fetchDailyArtwork\<close> leaves the \<^verbatim>\<open>try\<close> block as an exception, and the function
  logs it and goes on: no new request is issued, the artwork and the game state are as
  before. In \<^verbatim>\<open>searchArtworks\<close> a failing search request or detail request leaves the
  \<^verbatim>\<open>try\<close> block as an exception, and whatever leaves it so is logged, the list of
  search results is emptied, and the artwork and the game state are as before.
\<close>

theorem errors_caught_and_logged:
  "fetchDailyArtwork_try now (Rejects e) s = Inl e
   \<and> console (fetchDailyArtwork_resume now (Rejects e) s)
        = console s @ [(''Error fetching artwork:'', e)]
   \<and> requests (fetchDailyArtwork_resume now (Rejects e) s) = requests s
   \<and> pendingDaily (fetchDailyArtwork_resume now (Rejects e) s) = tl (pendingDaily s)
   \<and> artwork (fetchDailyArtwork_resume now (Rejects e) s) = artwork s
   \<and> gameState (fetchDailyArtwork_resume now (Rejects e) s) = gameState s
   \<and> (searchApi query = Rejects e \<longrightarrow>
        searchArtworks_try query searchApi objectApi s
          = Inl (e, s\<lparr>requests := requests s @ [SearchRequest query]\<rparr>))
   \<and> (searchApi query = Json data \<and> i \<in> set (limitedIds data) \<and> objectApi i = Rejects e \<longrightarrow>
        (\<exists>e' s'. searchArtworks_try query searchApi objectApi s = Inl (e', s')))
   \<and> (query \<noteq> [] \<and> searchArtworks_try query searchApi objectApi s = Inl (e', s') \<longrightarrow>
        searchResults (searchArtworks query searchApi objectApi s) = []
      \<and> console (searchArtworks query searchApi objectApi s)
           = console s @ [(''Error searching artworks:'', e')]
      \<and> artwork (searchArtworks query searchApi objectApi s) = artwork s
      \<and> gameState (searchArtworks query searchApi objectApi s) = gameState s)"
proof (intro conjI)
  show "fetchDailyArtwork_try now (Rejects e) s = Inl e"
    by (simp add: fetchDailyArtwork_try_def)
  show "console (fetchDailyArtwork_resume now (Rejects e) s)
        = console s @ [(''Error fetching artwork:'', e)]"
    by (simp add: fetchDailyArtwork_resume_error)
  show "requests (fetchDailyArtwork_resume now (Rejects e) s) = requests s"
    by (simp add: fetchDailyArtwork_resume_error)
  show "pendingDaily (fetchDailyArtwork_resume now (Rejects e) s) = tl (pendingDaily s)"
    by (simp add: fetchDailyArtwork_resume_error)
  show "artwork (fetchDailyArtwork_resume now (Rejects e) s) = artwork s"
    by (simp add: fetchDailyArtwork_resume_error)
  show "gameState (fetchDailyArtwork_resume now (Rejects e) s) = gameState s"
    by simp
  show "searchApi query = Rejects e \<longrightarrow>
        searchArtworks_try query searchApi objectApi s
          = Inl (e, s\<lparr>requests := requests s @ [SearchRequest query]\<rparr>)"
    by (simp add: searchArtworks_try_rejected)
  show "searchApi query = Json data \<and> i \<in> set (limitedIds data) \<and> objectApi i = Rejects e \<longrightarrow>
        (\<exists>e' s'. searchArtworks_try query searchApi objectApi s = Inl (e', s'))"
    using searchArtworks_try_detail_rejected[of searchApi query data i objectApi e s] by blast
  show "query \<noteq> [] \<and> searchArtworks_try query searchApi objectApi s = Inl (e', s') \<longrightarrow>
        searchResults (searchArtworks query searchApi objectApi s) = []
      \<and> console (searchArtworks query searchApi objectApi s)
           = console s @ [(''Error searching artworks:'', e')]
      \<and> artwork (searchArtworks query searchApi objectApi s) = artwork s
      \<and> gameState (searchArtworks query searchApi objectApi s) = gameState s"
    using searchArtworks_error[of query searchApi objectApi s e' s'] by simp
qed

theorem errors_caught_and_logged_witness:
  "searchResults (searchArtworks ''bowl'' (\<lambda>q. Rejects FetchFailed) sampleObjectApi guessState) = []
   \<and> console (searchArtworks ''bowl'' (\<lambda>q. Rejects FetchFailed) sampleObjectApi guessState)
        = [(''Error searching artworks:'', FetchFailed)]
   \<and> artwork (searchArtworks ''bowl'' (\<lambda>q. Rejects FetchFailed) sampleObjectApi guessState)
        = artwork guessState
   \<and> console (fetchDailyArtwork_resume sampleDate (Rejects JsonSyntaxError)
        (fetchDailyArtwork sampleDate initialState))
        = [(''Error fetching artwork:'', JsonSyntaxError)]
   \<and> requests (fetchDailyArtwork_resume sampleDate (Rejects JsonSyntaxError)
        (fetchDailyArtwork sampleDate initialState))
        = [ObjectRequest (getDailyArtworkId sampleDate)]"
proof -
  let ?sa = "\<lambda>q::string. (Rejects FetchFailed :: search_data response)"
  note t = errors_caught_and_logged
    [of sampleDate FetchFailed guessState ?sa "''bowl''" sampleObjectApi "\<lparr>objectIDs = None\<rparr>" 0
        FetchFailed "guessState\<lparr>requests := requests guessState @ [SearchRequest ''bowl'']\<rparr>"]
  note u = errors_caught_and_logged
    [of sampleDate JsonSyntaxError "fetchDailyArtwork sampleDate initialState" ?sa "''bowl''"
        sampleObjectApi "\<lparr>objectIDs = None\<rparr>" 0 FetchFailed guessState]
  have c0: "console guessState = []"
    by (simp add: guessState_def step_def handle_def searchArtworks_def searchArtworks_try_def
          sampleSearchApi_def sampleObjectApi_def limitedIds_def keepItem_def truthy_string_def
          truthy_bool_def sampleNoImage_def sampleBowl_def sampleObject_def Let_def
          playingState_def fetchDailyArtwork_resume_def fetchDailyArtwork_try_def eligible_def
          initialState_def)
  have tr: "searchArtworks_try ''bowl'' ?sa sampleObjectApi guessState
      = Inl (FetchFailed, guessState\<lparr>requests := requests guessState @ [SearchRequest ''bowl'']\<rparr>)"
    using t[THEN conjunct2, THEN conjunct2, THEN conjunct2, THEN conjunct2, THEN conjunct2,
        THEN conjunct2, THEN conjunct1] by simp
  have se: "searchResults (searchArtworks ''bowl'' ?sa sampleObjectApi guessState) = []
      \<and> console (searchArtworks ''bowl'' ?sa sampleObjectApi guessState)
           = console guessState @ [(''Error searching artworks:'', FetchFailed)]
      \<and> artwork (searchArtworks ''bowl'' ?sa sampleObjectApi guessState) = artwork guessState
      \<and> gameState (searchArtworks ''bowl'' ?sa sampleObjectApi guessState) = gameState guessState"
    using t[THEN conjunct2, THEN conjunct2, THEN conjunct2, THEN conjunct2, THEN conjunct2,
        THEN conjunct2, THEN conjunct2, THEN conjunct2] tr by simp
  have d1: "console (fetchDailyArtwork_resume sampleDate (Rejects JsonSyntaxError)
        (fetchDailyArtwork sampleDate initialState))
        = [(''Error fetching artwork:'', JsonSyntaxError)]"
    using u[THEN conjunct2, THEN conjunct1] by (simp add: initialState_def)
  have d2: "requests (fetchDailyArtwork_resume sampleDate (Rejects JsonSyntaxError)
        (fetchDailyArtwork sampleDate initialState))
        = [ObjectRequest (getDailyArtworkId sampleDate)]"
    using u[THEN conjunct2, THEN conjunct2, THEN conjunct1] by (simp add: initialState_def)
  from se c0 d1 d2 show ?thesis by simp
qed

subsection \<open>Double arithmetic\<close>

text \<open>
  The exponent is the one that brackets the number, the rounding of the 53-bit integer is
  to a nearest one, so the double is within half a unit in the last place of the number.
\<close>

lemma pow2_nonneg_exp: "0 \<le> e \<Longrightarrow> pow2 e = 2 ^ nat e"
  by (simp add: pow2_def)

lemma pow2_neg_exp: "e \<le> 0 \<Longrightarrow> pow2 e = 1 / 2 ^ nat (- e)"
  by (cases "e = 0") (simp_all add: pow2_def)

lemma exponentOf_ge_1:
  assumes "1 \<le> q"
  shows "pow2 (exponentOf q) \<le> q \<and> q < pow2 (exponentOf q + 1)"
proof -
  let ?n = "\<lfloor>q\<rfloor>"
  have n: "0 < ?n" using assms by simp
  from bitlen_bounds[OF n] have b: "2 ^ nat (bitlen ?n - 1) \<le> ?n" "?n < 2 ^ nat (bitlen ?n)"
    by simp_all
  have k: "0 < bitlen ?n" using n bitlen_eq_zero_iff[of ?n] bitlen_nonneg[of ?n] by linarith
  have e: "exponentOf q = bitlen ?n - 1" using assms by (simp add: exponentOf_def)
  have "rat_of_int (2 ^ nat (bitlen ?n - 1)) \<le> of_int ?n" using b(1) by (simp only: of_int_le_iff)
  also have "\<dots> \<le> q" by simp
  finally have lo: "pow2 (exponentOf q) \<le> q" using k by (simp add: e pow2_nonneg_exp)
  have "?n + 1 \<le> 2 ^ nat (bitlen ?n)" using b(2) by simp
  then have "rat_of_int (?n + 1) \<le> of_int (2 ^ nat (bitlen ?n))" by (simp only: of_int_le_iff)
  moreover have "q < of_int (?n + 1)" by linarith
  ultimately have "q < of_int (2 ^ nat (bitlen ?n))" by linarith
  then have hi: "q < pow2 (exponentOf q + 1)" using k by (simp add: e pow2_nonneg_exp)
  from lo hi show ?thesis ..
qed


lemma exponentOf_lt_1:
  assumes "0 < q" and "q < 1"
  shows "pow2 (exponentOf q) \<le> q \<and> q < pow2 (exponentOf q + 1)"
proof -
  let ?m = "\<lceil>1 / q\<rceil> - 1"
  have y: "1 < 1 / q" using assms by simp
  then have m: "0 < ?m" by linarith
  from bitlen_bounds[OF m] have b: "2 ^ nat (bitlen ?m - 1) \<le> ?m" "?m < 2 ^ nat (bitlen ?m)"
    by simp_all
  have k: "0 < bitlen ?m" using m bitlen_eq_zero_iff[of ?m] bitlen_nonneg[of ?m] by linarith
  have e: "exponentOf q = - bitlen ?m" using assms by (simp add: exponentOf_def)
  have p: "(0::rat) < 2 ^ nat (bitlen ?m)" by simp
  have "?m + 1 \<le> 2 ^ nat (bitlen ?m)" using b(2) by simp
  then have "rat_of_int (?m + 1) \<le> of_int (2 ^ nat (bitlen ?m))" by (simp only: of_int_le_iff)
  moreover have "1 / q \<le> of_int (?m + 1)" by simp
  ultimately have "1 / q \<le> rat_of_int (2 ^ nat (bitlen ?m))" by (rule order_trans[rotated])
  then have "1 / q \<le> 2 ^ nat (bitlen ?m)" by simp
  then have "1 \<le> 2 ^ nat (bitlen ?m) * q" using assms(1) by (simp add: pos_divide_le_eq)
  then have "1 / 2 ^ nat (bitlen ?m) \<le> q" using p by (simp add: pos_divide_le_eq mult.commute)
  then have lo: "pow2 (exponentOf q) \<le> q" using k by (simp add: e pow2_neg_exp)
  have "rat_of_int (2 ^ nat (bitlen ?m - 1)) \<le> of_int ?m" using b(1) by (simp only: of_int_le_iff)
  moreover have "of_int ?m < 1 / q" by linarith
  ultimately have "rat_of_int (2 ^ nat (bitlen ?m - 1)) < 1 / q" by (rule le_less_trans)
  then have "2 ^ nat (bitlen ?m - 1) < 1 / q" by simp
  then have "2 ^ nat (bitlen ?m - 1) * q < 1" using assms(1) by (simp add: pos_less_divide_eq)
  then have "q < 1 / 2 ^ nat (bitlen ?m - 1)" by (simp add: pos_less_divide_eq mult.commute)
  moreover have "pow2 (exponentOf q + 1) = 1 / 2 ^ nat (bitlen ?m - 1)"
    using k by (simp add: e pow2_neg_exp)
  ultimately have hi: "q < pow2 (exponentOf q + 1)" by simp
  from lo hi show ?thesis ..
qed

lemma exponentOf_bounds:
  "0 < q \<Longrightarrow> pow2 (exponentOf q) \<le> q \<and> q < pow2 (exponentOf q + 1)"
  using exponentOf_ge_1[of q] exponentOf_lt_1[of q] by (cases "1 \<le> q") simp_all

lemma roundHalfEven_near_aux:
  fixes v :: rat
  assumes "of_int f \<le> v" and "v < of_int f + 1"
  shows "\<bar>of_int (if v - of_int f < 1 / 2 then f
                  else if 1 / 2 < v - of_int f then f + 1
                  else if even f then f else f + 1) - v\<bar> \<le> 1 / 2"
  using assms by (auto simp add: abs_if)

lemma roundHalfEven_near: "\<bar>of_int (roundHalfEven v) - v\<bar> \<le> 1 / 2"
proof -
  have "of_int \<lfloor>v\<rfloor> \<le> v" and "v < of_int \<lfloor>v\<rfloor> + 1" by linarith+
  then show ?thesis unfolding roundHalfEven_def Let_def by (rule roundHalfEven_near_aux)
qed

lemma roundHalfEven_of_int: "roundHalfEven (of_int k) = k"
  by (simp add: roundHalfEven_def)


lemma pow2_pos: "0 < pow2 e"
  by (simp add: pow2_def)

lemma toDouble_near:
  assumes "q \<noteq> 0"
  shows "\<bar>toDouble q - q\<bar> \<le> pow2 (exponentOf \<bar>q\<bar> - 52) / 2"
proof -
  define u where "u = pow2 (exponentOf \<bar>q\<bar> - 52)"
  have u: "0 < u" unfolding u_def by (rule pow2_pos)
  have "toDouble q - q = (of_int (roundHalfEven (q / u)) - q / u) * u"
    using assms u by (simp add: toDouble_def Let_def u_def[symmetric] algebra_simps)
  then have "\<bar>toDouble q - q\<bar> = \<bar>of_int (roundHalfEven (q / u)) - q / u\<bar> * u"
    using u by (simp add: abs_mult)
  also have "\<dots> \<le> 1 / 2 * u"
    using roundHalfEven_near[of "q / u"] u by (intro mult_right_mono) simp_all
  finally show ?thesis by (simp add: u_def)
qed

subsection \<open>The dots on the canvas\<close>

lemma loopX_map:
  "loopX pixels width scale y x drawn =
     drawn @ map (\<lambda>x. drawDot pixels width scale x y) [x..<width]"
proof (induction pixels width scale y x drawn rule: loopX.induct)
  case (1 pixels width scale y x drawn)
  show ?case
  proof (cases "x < width")
    case True
    then have "[x..<width] = x # [x + 1..<width]" by (simp add: upt_conv_Cons)
    with 1[OF True] True show ?thesis by (subst loopX.simps) simp
  next
    case False
    then show ?thesis by (subst loopX.simps) simp
  qed
qed

lemma loopY_concat:
  "loopY pixels width height scale y drawn =
     drawn @ concat (map (\<lambda>y. map (\<lambda>x. drawDot pixels width scale x y) [0..<width])
                        [y..<height])"
proof (induction pixels width height scale y drawn rule: loopY.induct)
  case (1 pixels width height scale y drawn)
  show ?case
  proof (cases "y < height")
    case True
    then have "[y..<height] = y # [y + 1..<height]" by (simp add: upt_conv_Cons)
    with 1[OF True] True show ?thesis by (subst loopY.simps) (simp add: loopX_map)
  next
    case False
    then show ?thesis by (subst loopY.simps) simp
  qed
qed

lemma length_concat_blocks:
  "(\<And>i. i < n \<Longrightarrow> length (f i) = k) \<Longrightarrow> length (concat (map f [0..<n])) = n * k"
  by (induction n) simp_all

lemma nth_concat_blocks:
  "(\<And>i. i < n \<Longrightarrow> length (f i) = k) \<Longrightarrow> i < n \<Longrightarrow> j < k \<Longrightarrow>
   concat (map f [0..<n]) ! (i * k + j) = f i ! j"
proof (induction n)
  case 0
  then show ?case by simp
next
  case (Suc n)
  have len: "length (concat (map f [0..<n])) = n * k"
    using Suc.prems(1) by (intro length_concat_blocks) simp
  show ?case
  proof (cases "i < n")
    case True
    then have "i * k + j < n * k"
    proof -
      from True have "Suc i \<le> n" by simp
      then have "Suc i * k \<le> n * k" by (rule mult_le_mono1)
      with Suc.prems(3) show ?thesis by simp
    qed
    moreover have "concat (map f [0..<n]) ! (i * k + j) = f i ! j"
      using Suc.IH[OF _ True Suc.prems(3)] Suc.prems(1) by simp
    ultimately show ?thesis by (simp add: nth_append len)
  next
    case False
    with Suc.prems(2) have "i = n" by simp
    then show ?thesis by (simp add: nth_append len)
  qed
qed

lemma length_getImageData: "length (getImageData bitmap w h) = h * (w * 4)"
  unfolding getImageData_def
  by (intro length_concat_blocks) (simp add: length_concat_blocks split: prod.split)

lemma getImageData_nth:
  assumes "x < w" and "y < h" and "c < 4"
  shows "getImageData bitmap w h ! ((y * w + x) * 4 + c) =
           (case bitmap x y of (r, g, b, a) \<Rightarrow> [r, g, b, a] ! c)"
proof -
  let ?cell = "\<lambda>y x. case bitmap x y of (r, g, b, a) \<Rightarrow> [r, g, b, a]"
  let ?row = "\<lambda>y. concat (map (?cell y) [0..<w])"
  have cell: "\<And>y x. length (?cell y x) = 4" by (simp split: prod.split)
  have row: "\<And>y. length (?row y) = w * 4"
    by (intro length_concat_blocks) (rule cell)
  have "x * 4 + c < w * 4" using assms(1,3) by simp
  have "getImageData bitmap w h ! (y * (w * 4) + (x * 4 + c)) = ?row y ! (x * 4 + c)"
    unfolding getImageData_def
    using row assms(2) \<open>x * 4 + c < w * 4\<close> by (intro nth_concat_blocks) simp_all
  also have "\<dots> = ?cell y x ! c"
    using cell assms(1,3) by (intro nth_concat_blocks) simp_all
  also have "(y * (w * 4) + (x * 4 + c)) = (y * w + x) * 4 + c" by (simp add: algebra_simps)
  finally show ?thesis by (simp split: prod.split)
qed

lemma pixelAt_getImageData:
  assumes "x < w" and "y < h" and "c < 4"
  shows "pixelAt (getImageData bitmap w h) ((y * w + x) * 4 + c) =
           Some (case bitmap x y of (r, g, b, a) \<Rightarrow> [r, g, b, a] ! c)"
proof -
  have "(y * w + x) * 4 + c < Suc y * (w * 4)" using assms(1,3) by (simp add: algebra_simps)
  also have "\<dots> \<le> h * (w * 4)" using assms(2) by (intro mult_le_mono1) simp
  finally have "(y * w + x) * 4 + c < length (getImageData bitmap w h)"
    by (simp add: length_getImageData)
  then show ?thesis using getImageData_nth[OF assms] by (simp add: pixelAt_def)
qed

text \<open>In doubles \<open>20 / 2 * 0.8\<close> is exactly 8.\<close>

lemma dot_radius_at_scale_20: "js_mul (js_div 20 2) (toDouble (8 / 10)) = 8"
  by code_simp

lemma drawDot_getImageData:
  assumes "x < w" and "y < h"
  shows "drawDot (getImageData bitmap w h) w 20 x y =
     (case bitmap x y of (r, g, b, a) \<Rightarrow>
        \<lparr>dot_red = Some r, dot_green = Some g, dot_blue = Some b,
         dot_x = of_nat x * 20 + 10, dot_y = of_nat y * 20 + 10, dot_radius = 8\<rparr>)"
proof -
  obtain r g b a where p: "bitmap x y = (r, g, b, a)" by (cases "bitmap x y")
  have 0: "pixelAt (getImageData bitmap w h) ((y * w + x) * 4) = Some r"
    using pixelAt_getImageData[OF assms, of 0 bitmap] p by simp
  have 1: "pixelAt (getImageData bitmap w h) ((y * w + x) * 4 + 1) = Some g"
    using pixelAt_getImageData[OF assms, of 1 bitmap] p by simp
  have 2: "pixelAt (getImageData bitmap w h) ((y * w + x) * 4 + 2) = Some b"
    using pixelAt_getImageData[OF assms, of 2 bitmap] p by simp
  show ?thesis
    unfolding drawDot_def Let_def 0 1 2 p dot_radius_at_scale_20 by simp
qed

lemma dots_of_grid:
  "concat (map (\<lambda>y. map (\<lambda>x. drawDot (getImageData bitmap w h) w 20 x y) [0..<w]) [0..<h]) =
   concat (map (\<lambda>y. map (\<lambda>x. case bitmap x y of (r, g, b, a) \<Rightarrow>
        \<lparr>dot_red = Some r, dot_green = Some g, dot_blue = Some b,
         dot_x = of_nat x * 20 + 10, dot_y = of_nat y * 20 + 10, dot_radius = 8\<rparr>) [0..<w]) [0..<h])"
  by (intro arg_cong[where f = concat] map_cong refl) (simp add: drawDot_getImageData)

lemma length_grid: "length (concat (map (\<lambda>y. map (f y) [0..<w]) [0..<h])) = h * w"
  by (intro length_concat_blocks) simp

text \<open>
  C5. For a loaded image and a positive resolution, the callback sizes the hidden canvas to
  the resolution by \<^verbatim>\<open>Math.round(dotsWide * aspectRatio)\<close>, the aspect ratio and the
  product being those of double arithmetic, and the visible canvas to 20 times that. The dots it paints are, row after row and column after
  column, one for each cell of the grid: centred at \<open>(20 x + 10, 20 y + 10)\<close>, of radius 8
  (that is \<open>20 / 2 * 0.8\<close>), and filled with the red, green and blue samples that the
  scaled drawing of the image has at the cell \<open>(x, y)\<close>; so there are as many dots as
  cells.
\<close>

theorem processImage_dot_per_cell:
  assumes "0 < dots" and "0 < img_width img"
  shows "canvas_width (snd (processImage_onload img dots)) = nat dots
    \<and> canvas_height (snd (processImage_onload img dots))
        = nat (js_round (js_mul (of_int dots)
                 (js_div (of_nat (img_height img)) (of_nat (img_width img)))))
    \<and> output_width (snd (processImage_onload img dots))
        = canvas_width (snd (processImage_onload img dots)) * 20
    \<and> output_height (snd (processImage_onload img dots))
        = canvas_height (snd (processImage_onload img dots)) * 20
    \<and> output_dots (snd (processImage_onload img dots))
        = concat (map (\<lambda>y. map (\<lambda>x.
            case img_drawn img (canvas_width (snd (processImage_onload img dots)))
                   (canvas_height (snd (processImage_onload img dots))) x y of
              (r, g, b, a) \<Rightarrow>
                \<lparr>dot_red = Some r, dot_green = Some g, dot_blue = Some b,
                 dot_x = of_nat x * 20 + 10, dot_y = of_nat y * 20 + 10, dot_radius = 8\<rparr>)
            [0..<canvas_width (snd (processImage_onload img dots))])
            [0..<canvas_height (snd (processImage_onload img dots))])
    \<and> length (output_dots (snd (processImage_onload img dots)))
        = canvas_height (snd (processImage_onload img dots))
          * canvas_width (snd (processImage_onload img dots))"
proof -
  define w where "w = nat dots"
  define h where "h = nat (js_round (js_mul (of_int dots)
      (js_div (of_nat (img_height img)) (of_nat (img_width img)))))"
  have w0: "w \<noteq> 0" using assms(1) by (simp add: w_def)
  have hh: "(if img_width img = 0 then 0
      else (let aspectRatio = js_div (of_nat (img_height img)) (of_nat (img_width img))
            in nat (js_round (js_mul (of_int dots) aspectRatio)))) = h"
    using assms(2) by (simp add: h_def Let_def)
  have eq: "snd (processImage_onload img dots) =
      \<lparr>canvas_width = w, canvas_height = h, output_width = w * 20, output_height = h * 20,
       output_dots = (if h = 0 then []
          else loopY (getImageData (img_drawn img w h) w h) w h 20 0 [])\<rparr>"
    unfolding processImage_onload_def
    unfolding hh unfolding Let_def w_def[symmetric] using w0 by simp
  have dots: "(if h = 0 then [] else loopY (getImageData (img_drawn img w h) w h) w h 20 0 []) =
      concat (map (\<lambda>y. map (\<lambda>x. case img_drawn img w h x y of (r, g, b, a) \<Rightarrow>
        \<lparr>dot_red = Some r, dot_green = Some g, dot_blue = Some b,
         dot_x = of_nat x * 20 + 10, dot_y = of_nat y * 20 + 10, dot_radius = 8\<rparr>) [0..<w]) [0..<h])"
    by (simp add: loopY_concat dots_of_grid)
  show ?thesis
    unfolding eq dots by (simp add: length_grid w_def h_def)
qed


theorem processImage_dot_per_cell_witness:
  "canvas_width (snd (processImage_onload sampleImage 30)) = 30
   \<and> canvas_height (snd (processImage_onload sampleImage 30)) = 61
   \<and> output_width (snd (processImage_onload sampleImage 30)) = 600
   \<and> output_height (snd (processImage_onload sampleImage 30)) = 1220
   \<and> length (output_dots (snd (processImage_onload sampleImage 30))) = 1830"
proof -
  have d: "(0::int) < 30" by simp
  have i: "0 < img_width sampleImage" by (simp add: sampleImage_def)
  have r: "nat (js_round (js_mul (of_int 30) (js_div (of_nat 41) (of_nat 20)))) = 61"
    by code_simp
  have h: "nat (js_round (js_mul (of_int 30)
      (js_div (of_nat (img_height sampleImage)) (of_nat (img_width sampleImage))))) = 61"
    unfolding sampleImage_def htmlImage.simps by (rule r)
  note t = processImage_dot_per_cell[OF d i]
  have 1: "canvas_width (snd (processImage_onload sampleImage 30)) = 30"
    using t[THEN conjunct1] by simp
  have 2: "canvas_height (snd (processImage_onload sampleImage 30)) = 61"
    using t[THEN conjunct2, THEN conjunct1] h by (simp only:)
  have 3: "output_width (snd (processImage_onload sampleImage 30)) = 600"
    using t[THEN conjunct2, THEN conjunct2, THEN conjunct1] 1 by simp
  have 4: "output_height (snd (processImage_onload sampleImage 30)) = 1220"
    using t[THEN conjunct2, THEN conjunct2, THEN conjunct2, THEN conjunct1] 2 by simp
  have 5: "length (output_dots (snd (processImage_onload sampleImage 30))) = 1830"
    using t[THEN conjunct2, THEN conjunct2, THEN conjunct2, THEN conjunct2, THEN conjunct2] 1 2
    by simp
  from 1 2 3 4 5 show ?thesis by (intro conjI)
qed

text \<open>Some doubles, to compare with the machine: 0.1, 2.05, 0.8 and two ties.\<close>

lemma toDouble_samples:
  "toDouble (1 / 10) = 3602879701896397 / 2 ^ 55"
  "toDouble (41 / 20) = 2308094809027379 / 2 ^ 50"
  "toDouble (8 / 10) = 3602879701896397 / 2 ^ 52"
  "toDouble (2 ^ 53 + 1) = 2 ^ 53"
  "toDouble (2 ^ 53 + 3) = 2 ^ 53 + 4"
  "js_mul 30 (js_div 41 20) = 8655355533852671 / 2 ^ 47"
  by code_simp+

text \<open>Exact arithmetic would give one more row for this image.\<close>

lemma exact_product_rounds_higher:
  "js_round (30 * (41 / 20)) = 62 \<and> js_round (js_mul 30 (js_div 41 20)) = 61"
  by code_simp

subsection \<open>The printed date\<close>

text \<open>For a year of the common era up to 9999 the date is printed on eight characters.\<close>

lemma length_toString: "n < 10 ^ k \<Longrightarrow> 0 < k \<Longrightarrow> length (toString n) \<le> k"
proof (induction n arbitrary: k rule: toString.induct)
  case (1 n)
  show ?case
  proof (cases "n < 10")
    case True
    then show ?thesis using 1(3) by (subst toString.simps) simp
  next
    case False
    from 1(3) obtain j where k: "k = Suc j" by (cases k) auto
    from False 1(2) k have "0 < j" by (cases j) auto
    moreover from 1(2) k have "n div 10 < 10 ^ j" by (simp add: less_mult_imp_div_less mult.commute)
    ultimately have "length (toString (n div 10)) \<le> j" using 1(1)[OF False] by blast
    then show ?thesis using False k by (subst toString.simps) simp
  qed
qed

lemma length_addLeadingZeros: "n < 10 ^ k \<Longrightarrow> 0 < k \<Longrightarrow> length (addLeadingZeros n k) = k"
  using length_toString[of n k] by (simp add: addLeadingZeros_def)

lemma length_format_yyyyMMdd:
  "0 < year d \<Longrightarrow> year d \<le> 9999 \<Longrightarrow> month d \<le> 12 \<Longrightarrow> day d \<le> 31 \<Longrightarrow>
   length (format_yyyyMMdd d) = 8"
  by (simp add: format_yyyyMMdd_def length_addLeadingZeros)

subsection \<open>Before an artwork is loaded\<close>

text \<open>
  While \<^verbatim>\<open>artwork\<close> is \<^verbatim>\<open>null\<close> (a daily request failed, or returned an ineligible
  record and the next one is in flight) the loading card is gone and the controls are there.
  The render path is written for that state (\<^verbatim>\<open>artwork?.image\<close> at line 172,
  \<^verbatim>\<open>artwork?.id\<close> at line 243); the handlers are not. A skip still raises the
  resolution, then throws at \<^verbatim>\<open>artwork.image\<close>; a guess throws at \<^verbatim>\<open>artwork.id\<close>
  before it has done anything.
\<close>

lemma handleSkip_without_artwork:
  "artwork s = None \<Longrightarrow> handleSkip s = (Some TypeError, s\<lparr>dotsWide := dotsWide s + 10\<rparr>)"
  by (simp add: handleSkip_def Let_def)

lemma retryingState_fields:
  "artwork retryingState = None"
  "isLoading retryingState = False"
  "gameState retryingState = ''playing''"
  "pendingDaily retryingState = [getDailyArtworkId sampleDate]"
  by (simp_all add: retryingState_def step_def handle_def not_eligible_sampleNoImage
        fetchDailyArtwork_resume_ineligible initialState_def)

lemma retryingState_searchResults:
  "searchResults retryingState = [formatResult sampleBowl, formatResult sampleObject]"
  by (simp add: retryingState_def step_def handle_def searchArtworks_def searchArtworks_try_def
        sampleSearchApi_def sampleObjectApi_def limitedIds_def keepItem_def truthy_string_def
        truthy_bool_def sampleNoImage_def sampleBowl_def sampleObject_def Let_def)

lemma reachable_retryingState: "reachable retryingState"
  unfolding retryingState_def
  by (intro stepped mounted) (simp_all add: enabled_def)

lemma retryingState_guess_enabled: "enabled (Guess sampleOther) retryingState"
  by (simp add: enabled_controls retryingState_fields retryingState_searchResults sampleOther_def)

lemma retryingState_guess_throws:
  "handleGuess sampleOther retryingState = (Some TypeError, retryingState)"
  by (simp add: handleGuess_without_artwork retryingState_fields)

lemma retryingState_guess_step: "step (Guess sampleOther) retryingState = retryingState"
  by (simp add: step_def handle_def retryingState_guess_throws renderEffect_def)

text \<open>
  C3 asks that every incorrect guess raises the resolution by exactly 10. The code misses a
  case: in this reachable state (the record of the day was ineligible, the next request is
  in flight, a search has listed its results) a listed result that is not the artwork of the
  day is picked; the handler throws at line 149, the game is not won, and the resolution
  stays as it was instead of growing by 10.
\<close>

theorem dotsWide_unchanged_by_guess_before_artwork:
  "reachable retryingState \<and> enabled (Guess sampleOther) retryingState
   \<and> fst (handleGuess sampleOther retryingState) = Some TypeError
   \<and> gameState (step (Guess sampleOther) retryingState) = ''playing''
   \<and> dotsWide (step (Guess sampleOther) retryingState) = dotsWide retryingState
   \<and> dotsWide (step (Guess sampleOther) retryingState) \<noteq> dotsWide retryingState + 10"
  using reachable_retryingState retryingState_guess_enabled
  by (simp add: retryingState_guess_step retryingState_guess_throws retryingState_fields)

text \<open>
  C4 asks, for every picked search result whose identifier does not match, that the
  resolution grows by 10 and that the image is rendered again. The code misses a case: in
  this reachable state no artwork is loaded; for the listed result picked, the handler throws
  at the comparison of line 149 and changes nothing: the resolution does not grow and
  \<^verbatim>\<open>processImage\<close> is not called, by the handler or by the effect of the next render.
\<close>

theorem handleGuess_throws_before_artwork:
  "reachable retryingState \<and> enabled (Guess sampleOther) retryingState
   \<and> artwork retryingState = None
   \<and> handleGuess sampleOther retryingState = (Some TypeError, retryingState)
   \<and> dotsWide (snd (handleGuess sampleOther retryingState)) \<noteq> dotsWide retryingState + 10
   \<and> processImageCalls (step (Guess sampleOther) retryingState)
        = processImageCalls retryingState"
  using reachable_retryingState retryingState_guess_enabled
  by (simp add: retryingState_guess_step retryingState_guess_throws retryingState_fields)

text \<open>In the same state a skip does raise the resolution by 10, and then throws.\<close>

lemma handleSkip_before_artwork:
  "handleSkip retryingState = (Some TypeError, retryingState\<lparr>dotsWide := dotsWide retryingState + 10\<rparr>)
   \<and> dotsWide (step Skip retryingState) = dotsWide retryingState + 10"
  by (simp add: handleSkip_without_artwork retryingState_fields step_dotsWide)

end
